theory Spec2Isabelle
  imports Main "HOL-Library.Sublist" "HOL-Library.Signed_Division" "HOL-Library.AList"
begin

section \<open>Run-lifecycle coordinator of package ufcli\<close>

text \<open>
  A shallow embedding of \<^verbatim>\<open>ufcli/ufcli.go\<close> and \<^verbatim>\<open>cmn/errors\<close>. Go strings are byte
  sequences, modelled as \<^typ>\<open>string\<close>. The closure variables of \<^verbatim>\<open>RunAndExit\<close> form
  a record that every closure takes and returns; every call on a collaborator outside the
  package (logger, lock library, metrics push, callbacks, \<^verbatim>\<open>os.Exit\<close>) is appended to an
  event trace in that record. What the collaborators answer is an input of the model.
\<close>

subsection \<open>Sanitising names: \<^verbatim>\<open>promStr\<close>\<close>

text \<open>
  The character class \<^verbatim>\<open>[a-zA-Z0-9]\<close>. Every byte of a multi-byte UTF-8 sequence is at
  least 128, so the runs of runes outside the class are the runs of bytes outside it.
\<close>

definition alphanumeric :: "char \<Rightarrow> bool" where
  "alphanumeric c \<longleftrightarrow>
     (let n = (of_char c :: nat)
      in (97 \<le> n \<and> n \<le> 122) \<or> (65 \<le> n \<and> n \<le> 90) \<or> (48 \<le> n \<and> n \<le> 57))"

text \<open>
  \<^verbatim>\<open>nonAlphanumericRun.ReplaceAllString(s, "_")\<close> with the pattern \<^verbatim>\<open>[^a-zA-Z0-9]+\<close>:
  scanning from the left, a byte of the class is copied; at a byte outside the class the
  greedy \<^verbatim>\<open>+\<close> consumes the whole run and one underscore is written for it.
\<close>

function promStr :: "string \<Rightarrow> string" where
  "promStr [] = []"
| "promStr (c # cs) =
     (if alphanumeric c then c # promStr cs
      else CHR ''_'' # promStr (dropWhile (\<lambda>d. \<not> alphanumeric d) cs))"
  by pat_completeness auto
termination
  by (relation "measure length") (auto simp: length_dropWhile_le less_Suc_eq_le)

subsection \<open>Errors\<close>

text \<open>
  The error values that reach the coordinator: \<^verbatim>\<open>fslock.LockedError\<close> (a string type),
  an error that only carries a message (\<^verbatim>\<open>errors.New\<close>, \<^verbatim>\<open>fmt.Errorf\<close> without
  \<^verbatim>\<open>%w\<close>), \<^verbatim>\<open>os.PathError\<close> (operation, path, cause; the lock library wraps its
  \<^verbatim>\<open>LockedError\<close> in one), and \<^verbatim>\<open>cmn.cmnErr\<close>, the wrapper that \<^verbatim>\<open>cmn.WrErr\<close> builds
  (the recorded call frame is not modelled).
\<close>

datatype err =
    LockedError string
  | PlainError string
  | PathError string string err
  | CmnErr err

text \<open>\<^verbatim>\<open>WrErr\<close>: nil stays nil, anything else is wrapped, every time.\<close>

fun WrErr :: "err option \<Rightarrow> err option" where
  "WrErr None = None"
| "WrErr (Some e) = Some (CmnErr e)"

text \<open>\<^verbatim>\<open>Unwrap\<close> of each kind; \<^verbatim>\<open>(*cmnErr).Unwrap\<close> returns the wrapped error.\<close>

fun Unwrap :: "err \<Rightarrow> err option" where
  "Unwrap (LockedError m) = None"
| "Unwrap (PlainError m) = None"
| "Unwrap (PathError oper path e) = Some e"
| "Unwrap (CmnErr e) = Some e"

text \<open>
  The \<^verbatim>\<open>Error()\<close> text. \<^verbatim>\<open>(*cmnErr).Error\<close> prints through \<^verbatim>\<open>FormatError\<close> without
  detail, which prints the wrapped error's text and nothing else.
\<close>

fun Error :: "err \<Rightarrow> string" where
  "Error (LockedError m) = m"
| "Error (PlainError m) = m"
| "Error (PathError oper path e) = oper @ '' '' @ path @ '': '' @ Error e"
| "Error (CmnErr e) = Error e"

text \<open>
  \<^verbatim>\<open>errors.As(e, new(fslock.LockedError))\<close>: whether the \<^verbatim>\<open>Unwrap\<close> chain of the error
  holds a \<^verbatim>\<open>LockedError\<close>.
\<close>

fun As_LockedError :: "err \<Rightarrow> bool" where
  "As_LockedError (LockedError m) = True"
| "As_LockedError (PlainError m) = False"
| "As_LockedError (PathError oper path e) = As_LockedError e"
| "As_LockedError (CmnErr e) = As_LockedError e"

subsection \<open>Durations\<close>

text \<open>
  \<^verbatim>\<open>time.Duration\<close> is a count of nanoseconds. \<^verbatim>\<open>Truncate\<close> rounds toward zero to a
  multiple of \<open>m\<close> and returns the duration unchanged when \<open>m \<le> 0\<close>; \<^verbatim>\<open>Milliseconds\<close>
  is the integer quotient by \<open>10\<^sup>6\<close>. Go's \<^verbatim>\<open>%\<close> and \<^verbatim>\<open>/\<close> truncate, hence \<open>smod\<close> and
  \<open>sdiv\<close>. Neither operation can overflow 64 bits, so the count is an \<^typ>\<open>int\<close>.
\<close>

definition Millisecond :: int where
  "Millisecond = 1000000"

definition Truncate :: "int \<Rightarrow> int \<Rightarrow> int" where
  "Truncate d m = (if m \<le> 0 then d else d - d smod m)"

definition Milliseconds :: "int \<Rightarrow> int" where
  "Milliseconds d = d sdiv 1000000"

subsection \<open>Configuration: \<^verbatim>\<open>UFcli\<close>\<close>

text \<open>Of a \<^verbatim>\<open>cli.Command\<close> the coordinator reads the name and the aliases.\<close>

record Command =
  Name :: string
  Aliases :: "string list"

text \<open>
  A callback of type \<^verbatim>\<open>func() error\<close> is given by the error it returns; an optional
  callback is an \<open>option\<close> of that, \<open>None\<close> being the nil function. \<^verbatim>\<open>GlobalInit\<close> returns
  a resource closer and an error, or panics with a value whose \<^verbatim>\<open>%s\<close> rendering is given.
\<close>

type_synonym callback = "err option"

datatype init = InitReturns "callback option" "err option" | InitPanics string

text \<open>
  \<^verbatim>\<open>AppConfig.Name\<close> and \<^verbatim>\<open>AppConfig.Commands\<close> (as the hook finds them in
  \<^verbatim>\<open>cctx.App.Commands\<close>) are the two fields of the \<^verbatim>\<open>cli.App\<close> that the coordinator reads.
  The logger is the event trace; which signals are handled is part of the environment.
\<close>

record UFcli =
  AppConfig_Name :: string
  AppConfig_Commands :: "Command list"
  TOMLPath :: string
  GlobalInit :: "init option"
  BeforeShutdown :: "callback option"

subsection \<open>The environment of one run\<close>

text \<open>
  What the command-line engine does with the application: it ends without calling the
  \<^verbatim>\<open>Before\<close> hook (a usage error, its own help or version output), or it calls the hook,
  returns the hook's error if there is one, and otherwise runs the command. Either way the
  part outside the hook returns an error or nil, or panics.
\<close>

datatype outcome = Returns "err option" | Panics string

datatype engine = WithoutBefore outcome | WithBefore outcome

text \<open>
  The goroutine that waits for a signal runs beside the main flow; \<^verbatim>\<open>sync.Once\<close> makes
  its call of \<^verbatim>\<open>shutdown\<close> atomic with respect to the main flow's. The model delivers the
  signal, if any, at one of three points of the main flow: before the engine is entered,
  after it has returned or panicked, or between the main flow's own call of
  \<^verbatim>\<open>shutdown\<close> and \<^verbatim>\<open>os.Exit\<close>.
\<close>

datatype signal_point = NoSignal | SignalBeforeRun | SignalAfterRun | SignalAtExit

text \<open>
  What one run finds outside the package: \<^verbatim>\<open>os.Args\<close>; \<^verbatim>\<open>os.TempDir()\<close>; whether
  standard error is a terminal; the error, if any, of loading the configuration file; the
  four push settings that \<^verbatim>\<open>cctx.String\<close> yields; the error of \<^verbatim>\<open>fslock.Lock\<close>, if
  it fails; the engine; \<^verbatim>\<open>time.Since(startTime)\<close> in nanoseconds when \<^verbatim>\<open>emitEndLogs\<close>
  reads the clock; \<^verbatim>\<open>debug.Stack()\<close>; the error of the push, if it fails; and the signal.
\<close>

record World =
  Args :: "string list"
  TempDir :: string
  IsTerminal :: bool
  InputSource :: "err option"
  prometheus_push_url :: string
  prometheus_push_user :: string
  prometheus_push_pass :: string
  prometheus_instance :: string
  Lock :: "err option"
  Engine :: engine
  Since :: int
  Stack :: string
  PushResult :: "err option"
  Signal :: signal_point

subsection \<open>Events\<close>

datatype level = InfoLevel | WarnLevel | ErrorLevel

text \<open>
  An argument of a logger call. \<open>DurationString d\<close> stands for the string that
  \<^verbatim>\<open>Duration.String\<close> returns for \<open>d\<close>.
\<close>

datatype arg = StrArg string | BoolArg bool | ErrArg err | DurationString int

text \<open>A gauge is its name and its value; the values set here are whole numbers.\<close>

type_synonym gauge = "string \<times> int"

record pusher =
  push_url :: string
  push_job :: string
  push_grouping :: "(string \<times> string) list"
  push_basicAuth :: "(string \<times> string) option"
  push_collectors :: "gauge list"

text \<open>
  \<open>Log l m as\<close> is a call of the logger at level \<open>l\<close> with message or format \<open>m\<close> and the
  remaining arguments \<open>as\<close>. \<open>Close\<close> is \<^verbatim>\<open>Close\<close> on a lock handle, the one method of
  an \<^verbatim>\<open>io.Closer\<close>.
\<close>

datatype event =
    Log level string "arg list"
  | SetLogLevel string string
  | InitInputSource string
  | CallBeforeShutdown
  | TopCtxShutdown
  | CallResourcesCloser
  | Sleep int
  | FsLock string string
  | Close "string \<times> string"
  | CallGlobalInit
  | Push pusher
  | Exit int

subsection \<open>The variables shared by the closures of \<^verbatim>\<open>RunAndExit\<close>\<close>

text \<open>
  \<open>o_done\<close> is the state of the \<^verbatim>\<open>sync.Once\<close>, the last field is the event trace; the
  others are the variables of the source under their names. A lock handle is the directory
  and the name of the lock file.
\<close>

record RunState =
  o_done :: bool
  resourcesCloser :: "callback option"
  scopeErr :: "err option"
  currentCmd :: string
  currentCmdLock :: "(string \<times> string) option"
  promPushConf_url :: string
  promPushConf_user :: string
  promPushConf_pass :: string
  promPushConf_instance :: string
  trace :: "event list"

definition emit :: "event \<Rightarrow> RunState \<Rightarrow> RunState" where
  "emit e s = s\<lparr>trace := trace s @ [e]\<rparr>"

definition apostrophe :: string where
  "apostrophe = [CHR 0x27]"

definition newline :: string where
  "newline = [CHR 0x0A]"

subsection \<open>\<^verbatim>\<open>shutdown\<close>\<close>

text \<open>
  The body runs under \<^verbatim>\<open>o.Do\<close>: a call that finds the guard set returns at once, and
  a call that races with the first one waits for it and then returns, so calls take effect
  one after the other.
\<close>

definition shutdown :: "UFcli \<Rightarrow> bool \<Rightarrow> RunState \<Rightarrow> RunState" where
  "shutdown uf isNormal s =
     (if o_done s then s
      else
        let s = s\<lparr>o_done := True\<rparr>;
            s = (case BeforeShutdown uf of
                   None \<Rightarrow> s
                 | Some r \<Rightarrow>
                     let s = emit CallBeforeShutdown s
                     in (case r of
                           None \<Rightarrow> s
                         | Some e \<Rightarrow>
                             emit (Log WarnLevel
                               ''error encountered during before-shutdown cleanup: %+v'' [ErrArg e]) s));
            s = emit TopCtxShutdown s;
            s = (case resourcesCloser s of
                   None \<Rightarrow> s
                 | Some r \<Rightarrow>
                     let s = emit CallResourcesCloser s
                     in (case r of
                           None \<Rightarrow> s
                         | Some e \<Rightarrow>
                             emit (Log WarnLevel
                               ''error encountered during after-shutdown cleanup: %+v'' [ErrArg e]) s))
        in if \<not> isNormal then emit (Sleep (250 * Millisecond)) s else s)"

text \<open>The signal goroutine, once a signal has arrived.\<close>

definition signalHandler :: "UFcli \<Rightarrow> RunState \<Rightarrow> RunState" where
  "signalHandler uf s =
     shutdown uf False (emit (Log WarnLevel ''termination signal received, cleaning up...'' []) s)"

definition deliver :: "UFcli \<Rightarrow> World \<Rightarrow> signal_point \<Rightarrow> RunState \<Rightarrow> RunState" where
  "deliver uf w p s = (if Signal w = p then signalHandler uf s else s)"

subsection \<open>\<^verbatim>\<open>emitEndLogs\<close>\<close>

definition cmdFqName :: "UFcli \<Rightarrow> RunState \<Rightarrow> string" where
  "cmdFqName uf s = promStr (AppConfig_Name uf @ ''_'' @ currentCmd s)"

definition took :: "World \<Rightarrow> int" where
  "took w = Truncate (Since w) Millisecond"

definition tookGauge :: "UFcli \<Rightarrow> World \<Rightarrow> RunState \<Rightarrow> gauge" where
  "tookGauge uf w s = (cmdFqName uf s @ ''_run_time'', Milliseconds (took w))"

definition successGauge :: "UFcli \<Rightarrow> bool \<Rightarrow> RunState \<Rightarrow> gauge" where
  "successGauge uf wasSuccess s = (cmdFqName uf s @ ''_success'', if wasSuccess then 1 else 0)"

definition logHdr :: "RunState \<Rightarrow> string" where
  "logHdr s = ''=== FINISH '' @ apostrophe @ currentCmd s @ apostrophe @ '' run''"

definition emitEndLogs :: "UFcli \<Rightarrow> World \<Rightarrow> bool \<Rightarrow> RunState \<Rightarrow> RunState" where
  "emitEndLogs uf w wasSuccess s =
     (if currentCmdLock s = None then s
      else
        let logArgs = [StrArg ''success'', BoolArg wasSuccess,
                       StrArg ''took'', DurationString (took w)];
            s = (if wasSuccess then emit (Log InfoLevel (logHdr s) logArgs) s
                 else emit (Log WarnLevel (logHdr s) logArgs) s)
        in if promPushConf_url s \<noteq> [] then
             let p = \<lparr>push_url = promPushConf_url s,
                      push_job = promStr (currentCmd s),
                      push_grouping =
                        (if promPushConf_instance s \<noteq> []
                         then [(''instance'', promStr (promPushConf_instance s))] else []),
                      push_basicAuth =
                        (if promPushConf_user s \<noteq> []
                         then Some (promPushConf_user s, promPushConf_pass s) else None),
                      push_collectors = [tookGauge uf w s, successGauge uf wasSuccess s]\<rparr>;
                 s = emit (Push p) s
             in (case PushResult w of
                   None \<Rightarrow> s
                 | Some promErr \<Rightarrow>
                     emit (Log WarnLevel
                       (''push of prometheus metrics to '' @ apostrophe @ ''%s'' @ apostrophe
                          @ '' failed: %s'')
                       [StrArg (promPushConf_url s), ErrArg promErr]) s)
           else s)"

subsection \<open>The \<^verbatim>\<open>Before\<close> hook\<close>

text \<open>
  The map \<^verbatim>\<open>cmdNames\<close>, as an association list with one entry per key: an assignment to
  a key that is present replaces its value. Its length is \<^verbatim>\<open>len(cmdNames)\<close>, and the
  lookup of an absent key yields the empty string.
\<close>

fun addAliases :: "string \<Rightarrow> string list \<Rightarrow> (string \<times> string) list \<Rightarrow> (string \<times> string) list" where
  "addAliases n [] m = m"
| "addAliases n (a # as) m = addAliases n as (AList.update a n m)"

fun cmdNames :: "Command list \<Rightarrow> (string \<times> string) list \<Rightarrow> (string \<times> string) list" where
  "cmdNames [] m = m"
| "cmdNames (c # cs) m =
     (if Name c = ''help'' then cmdNames cs m
      else cmdNames cs (addAliases (Name c) (Aliases c) (AList.update (Name c) (Name c) m)))"

definition index :: "(string \<times> string) list \<Rightarrow> string \<Rightarrow> string" where
  "index m k = (case map_of m k of None \<Rightarrow> [] | Some v \<Rightarrow> v)"

text \<open>
  The loop over \<^verbatim>\<open>os.Args[1:]\<close>. The result says whether the loop ended at a help flag,
  which makes the hook return nil, and gives \<^verbatim>\<open>currentCmd\<close> as the loop left it.
\<close>

fun scanArgs :: "(string \<times> string) list \<Rightarrow> string list \<Rightarrow> string \<Rightarrow> bool \<times> string" where
  "scanArgs m [] cur = (False, cur)"
| "scanArgs m (a # as) cur =
     (if a = ''-h'' \<or> a = ''--help'' then (True, cur)
      else if cur \<noteq> [] then scanArgs m as cur
      else scanArgs m as (index m a))"

text \<open>What a call returns to the engine: a value, or a panic that unwinds.\<close>

datatype 'a result = Return 'a | Panic string

text \<open>
  \<^verbatim>\<open>fslock.Lock\<close> returns a handle and no error, or an error and no handle; the handle is
  modelled by the directory and the file name of the lock.
\<close>

text \<open>
  The hook is a closure over \<^verbatim>\<open>app\<close>, the copy of \<^verbatim>\<open>uf.AppConfig\<close> that
  \<^verbatim>\<open>RunContext\<close> is called on, and reads \<^verbatim>\<open>app.Name\<close> after the engine has set the
  copy up: \<^verbatim>\<open>Setup\<close> of urfave/cli v2.23.7 stores \<^verbatim>\<open>filepath.Base(os.Args[0])\<close> in an
  empty \<^verbatim>\<open>Name\<close> and leaves any other name alone. \<^verbatim>\<open>uf.AppConfig.Name\<close>, which
  \<^verbatim>\<open>emitEndLogs\<close> reads, is not touched. \<open>Base\<close> is \<^verbatim>\<open>filepath.Base\<close> with the
  separator \<^verbatim>\<open>/\<close>: trailing separators are dropped, then everything up to the last
  separator; an empty path gives a dot and a path of separators gives one separator.
  \<^verbatim>\<open>os.Args\<close> holds the program's name in every run that reaches the hook, since
  \<^verbatim>\<open>Setup\<close> indexes it; for an empty \<^verbatim>\<open>os.Args\<close> the name stays as configured.
\<close>

definition Base :: "string \<Rightarrow> string" where
  "Base path =
     (if path = [] then ''.''
      else let path = rev (dropWhile (\<lambda>c. c = CHR ''/'') (rev path));
               path = rev (takeWhile (\<lambda>c. c \<noteq> CHR ''/'') (rev path))
           in if path = [] then ''/'' else path)"

definition app_Name :: "UFcli \<Rightarrow> World \<Rightarrow> string" where
  "app_Name uf w =
     (if AppConfig_Name uf = []
      then (case Args w of [] \<Rightarrow> AppConfig_Name uf | a # as \<Rightarrow> Base a)
      else AppConfig_Name uf)"

text \<open>The second argument of \<^verbatim>\<open>fslock.Lock\<close>, the name of the lock file.\<close>

definition lockName :: "UFcli \<Rightarrow> World \<Rightarrow> RunState \<Rightarrow> string" where
  "lockName uf w s = promStr (app_Name uf w) @ ''-'' @ promStr (currentCmd s)"

definition Before :: "UFcli \<Rightarrow> World \<Rightarrow> RunState \<Rightarrow> err option result \<times> RunState" where
  "Before uf w s =
     (let s = emit (SetLogLevel ''net/identify'' ''ERROR'') s;
          s = emit (SetLogLevel ''canonical-log'' ''ERROR'') s;
          s = emit (InitInputSource (TOMLPath uf)) s
      in case InputSource w of
           Some e \<Rightarrow> (Return (WrErr (Some e)), s)
         | None \<Rightarrow>
             let s = s\<lparr>promPushConf_url := prometheus_push_url w,
                       promPushConf_user := prometheus_push_user w,
                       promPushConf_pass := prometheus_push_pass w,
                       promPushConf_instance := prometheus_instance w\<rparr>;
                 m = cmdNames (AppConfig_Commands uf) []
             in case scanArgs m (drop 1 (Args w)) (currentCmd s) of
                  (True, cur) \<Rightarrow> (Return None, s\<lparr>currentCmd := cur\<rparr>)
                | (False, cur) \<Rightarrow>
                    let s = s\<lparr>currentCmd := (if length m = 0 then ''Action'' else cur)\<rparr>
                    in if currentCmd s = [] then (Return None, s)
                       else
                         let key = lockName uf w s;
                             s = emit (FsLock (TempDir w) key) s
                         in case Lock w of
                              Some e \<Rightarrow> (Return (Some e), s\<lparr>currentCmdLock := None\<rparr>)
                            | None \<Rightarrow>
                                let s = s\<lparr>currentCmdLock := Some (TempDir w, key)\<rparr>;
                                    s = emit (Log InfoLevel
                                          (''=== BEGIN '' @ apostrophe @ currentCmd s @ apostrophe
                                             @ '' run'') []) s
                                in case GlobalInit uf of
                                     None \<Rightarrow> (Return (WrErr None), s)
                                   | Some g \<Rightarrow>
                                       let s = emit CallGlobalInit s
                                       in (case g of
                                             InitPanics r \<Rightarrow> (Panic r, s)
                                           | InitReturns closer e \<Rightarrow>
                                               (Return (WrErr e), s\<lparr>resourcesCloser := closer\<rparr>)))"

subsection \<open>The engine and the deferred function\<close>

fun finish :: "outcome \<Rightarrow> err option result" where
  "finish (Returns e) = Return e"
| "finish (Panics r) = Panic r"

definition RunContext :: "UFcli \<Rightarrow> World \<Rightarrow> RunState \<Rightarrow> err option result \<times> RunState" where
  "RunContext uf w s =
     (case Engine w of
        WithoutBefore out \<Rightarrow> (finish out, s)
      | WithBefore out \<Rightarrow>
          (case Before uf w s of
             (Panic r, s) \<Rightarrow> (Panic r, s)
           | (Return (Some e), s) \<Rightarrow> (Return (Some e), s)
           | (Return None, s) \<Rightarrow> (finish out, s)))"

text \<open>
  The deferred function, given what \<^verbatim>\<open>recover()\<close> returns (the \<^verbatim>\<open>%s\<close> rendering of the
  panic value, if a panic is unwinding). Each branch ends in \<^verbatim>\<open>os.Exit\<close>; the result is
  the exit code and the state at that call.
\<close>

definition deferred :: "UFcli \<Rightarrow> World \<Rightarrow> string option \<Rightarrow> RunState \<Rightarrow> int \<times> RunState" where
  "deferred uf w recovered s =
     (let s = (case recovered of
                 None \<Rightarrow> s
               | Some r \<Rightarrow>
                   (case scopeErr s of
                      None \<Rightarrow>
                        s\<lparr>scopeErr := Some (PlainError
                             (''panic encountered: '' @ r @ newline @ Stack w))\<rparr>
                    | Some e \<Rightarrow>
                        s\<lparr>scopeErr := Some (PlainError
                             (''panic encountered (in addition to error '' @ apostrophe @ Error e
                                @ apostrophe @ ''): '' @ r @ newline @ Stack w))\<rparr>))
      in case scopeErr s of
           Some e \<Rightarrow>
             if As_LockedError e \<and> \<not> IsTerminal w then (1, shutdown uf True s)
             else
               let s = emit (Log ErrorLevel ''%+v'' [ErrArg e]) s;
                   s = emitEndLogs uf w False s
               in (1, shutdown uf False s)
         | None \<Rightarrow> (0, shutdown uf True (emitEndLogs uf w True s)))"

subsection \<open>\<^verbatim>\<open>RunAndExit\<close>\<close>

definition initial :: RunState where
  "initial = \<lparr>o_done = False, resourcesCloser = None, scopeErr = None, currentCmd = [],
            currentCmdLock = None, promPushConf_url = [], promPushConf_user = [],
            promPushConf_pass = [], promPushConf_instance = [], trace = []\<rparr>"

text \<open>
  The main flow: the engine runs, its result is stored in \<^verbatim>\<open>scopeErr\<close> unless it
  panicked, the deferred function runs and the process exits with its code. The four hidden
  flags that are added to the application and the empty \<^verbatim>\<open>ExitErrHandler\<close> configure the
  engine and leave no event.
\<close>

definition RunAndExit :: "UFcli \<Rightarrow> World \<Rightarrow> int \<times> RunState" where
  "RunAndExit uf w =
     (let s = deliver uf w SignalBeforeRun initial;
          (res, s) = RunContext uf w s;
          s = deliver uf w SignalAfterRun s;
          (code, s) = (case res of
                         Return e \<Rightarrow> deferred uf w None (s\<lparr>scopeErr := e\<rparr>)
                       | Panic r \<Rightarrow> deferred uf w (Some r) s);
          s = deliver uf w SignalAtExit s
      in (code, emit (Exit code) s))"

section \<open>The shutdown sequence in the words of the specification\<close>

text \<open>
  The specification gives the sequence as four steps: (1) call the optional pre-shutdown
  callback and log, at warning level, an error it returns; (2) cancel the root context;
  (3) call the optional resource closer and log, at warning level, an error it returns;
  (4) on a path that is not normal, pause for 250 milliseconds. \<open>shutdown_sequence\<close>
  is that list of events, for a given resource closer and a given \<^verbatim>\<open>isNormal\<close>.
\<close>

definition cleanup :: "event \<Rightarrow> string \<Rightarrow> callback option \<Rightarrow> event list" where
  "cleanup call msg cb =
     (case cb of
        None \<Rightarrow> []
      | Some r \<Rightarrow> call # (case r of None \<Rightarrow> [] | Some e \<Rightarrow> [Log WarnLevel msg [ErrArg e]]))"

definition shutdown_sequence :: "UFcli \<Rightarrow> callback option \<Rightarrow> bool \<Rightarrow> event list" where
  "shutdown_sequence uf closer isNormal =
     cleanup CallBeforeShutdown ''error encountered during before-shutdown cleanup: %+v''
       (BeforeShutdown uf)
     @ [TopCtxShutdown]
     @ cleanup CallResourcesCloser ''error encountered during after-shutdown cleanup: %+v'' closer
     @ (if isNormal then [] else [Sleep (250 * Millisecond)])"

section \<open>Names for the events of a run\<close>

text \<open>
  The records that the hook and \<^verbatim>\<open>emitEndLogs\<close> write, the events of one call of
  \<^verbatim>\<open>emitEndLogs\<close>, and the events of one delivery of a signal.
\<close>

definition beginRecord :: "string \<Rightarrow> event" where
  "beginRecord cmd = Log InfoLevel (''=== BEGIN '' @ apostrophe @ cmd @ apostrophe @ '' run'') []"

definition finishRecord :: "World \<Rightarrow> bool \<Rightarrow> RunState \<Rightarrow> event" where
  "finishRecord w wasSuccess s =
     Log (if wasSuccess then InfoLevel else WarnLevel) (logHdr s)
       [StrArg ''success'', BoolArg wasSuccess, StrArg ''took'', DurationString (took w)]"

definition pushRecord :: "UFcli \<Rightarrow> World \<Rightarrow> bool \<Rightarrow> RunState \<Rightarrow> event" where
  "pushRecord uf w wasSuccess s =
     Push \<lparr>push_url = promPushConf_url s,
           push_job = promStr (currentCmd s),
           push_grouping =
             (if promPushConf_instance s \<noteq> []
              then [(''instance'', promStr (promPushConf_instance s))] else []),
           push_basicAuth =
             (if promPushConf_user s \<noteq> []
              then Some (promPushConf_user s, promPushConf_pass s) else None),
           push_collectors = [tookGauge uf w s, successGauge uf wasSuccess s]\<rparr>"

definition endLogs :: "UFcli \<Rightarrow> World \<Rightarrow> bool \<Rightarrow> RunState \<Rightarrow> event list" where
  "endLogs uf w wasSuccess s =
     (if currentCmdLock s = None then []
      else finishRecord w wasSuccess s #
        (if promPushConf_url s = [] then []
         else pushRecord uf w wasSuccess s #
           (case PushResult w of
              None \<Rightarrow> []
            | Some promErr \<Rightarrow>
                [Log WarnLevel
                   (''push of prometheus metrics to '' @ apostrophe @ ''%s'' @ apostrophe
                      @ '' failed: %s'')
                   [StrArg (promPushConf_url s), ErrArg promErr]])))"

definition signalled :: "UFcli \<Rightarrow> World \<Rightarrow> signal_point \<Rightarrow> RunState \<Rightarrow> event list" where
  "signalled uf w p s =
     (if Signal w = p
      then Log WarnLevel ''termination signal received, cleaning up...'' [] #
           (if o_done s then [] else shutdown_sequence uf (resourcesCloser s) False)
      else [])"

text \<open>
  The parts of the \<^verbatim>\<open>Before\<close> hook: the events it always starts with, the push settings
  it stores, what the scan of the arguments yields, the command name after the
  \<^verbatim>\<open>"Action"\<close> rule, the name of the lock file, the state once the lock is held, the
  events the hook can write, and the value it returns as a function of its inputs.
\<close>

definition hookPrefix :: "UFcli \<Rightarrow> event list" where
  "hookPrefix uf =
     [SetLogLevel ''net/identify'' ''ERROR'', SetLogLevel ''canonical-log'' ''ERROR'',
      InitInputSource (TOMLPath uf)]"

definition withConf :: "World \<Rightarrow> RunState \<Rightarrow> RunState" where
  "withConf w s =
     s\<lparr>promPushConf_url := prometheus_push_url w,
       promPushConf_user := prometheus_push_user w,
       promPushConf_pass := prometheus_push_pass w,
       promPushConf_instance := prometheus_instance w\<rparr>"

definition scanned :: "UFcli \<Rightarrow> World \<Rightarrow> RunState \<Rightarrow> bool \<times> string" where
  "scanned uf w s = scanArgs (cmdNames (AppConfig_Commands uf) []) (drop 1 (Args w)) (currentCmd s)"

definition resolved :: "UFcli \<Rightarrow> World \<Rightarrow> RunState \<Rightarrow> string" where
  "resolved uf w s =
     (if length (cmdNames (AppConfig_Commands uf) []) = 0 then ''Action''
      else snd (scanned uf w s))"

definition lockKey :: "UFcli \<Rightarrow> World \<Rightarrow> RunState \<Rightarrow> string" where
  "lockKey uf w s = promStr (app_Name uf w) @ ''-'' @ promStr (resolved uf w s)"

definition locked :: "UFcli \<Rightarrow> World \<Rightarrow> RunState \<Rightarrow> RunState" where
  "locked uf w s =
     (withConf w s)\<lparr>currentCmd := resolved uf w s,
        currentCmdLock := Some (TempDir w, lockKey uf w s)\<rparr>"

definition hookEvent :: "UFcli \<Rightarrow> World \<Rightarrow> RunState \<Rightarrow> event \<Rightarrow> bool" where
  "hookEvent uf w s e \<longleftrightarrow>
     e \<in> set (hookPrefix uf) \<or> e = FsLock (TempDir w) (lockKey uf w s)
     \<or> e = beginRecord (resolved uf w s) \<or> e = CallGlobalInit"


text \<open>
  Classes of events, and three properties of a state or a trace: no lock held and no
  lock, \<^verbatim>\<open>BEGIN\<close>, \<^verbatim>\<open>FINISH\<close> or push event so far; no \<^verbatim>\<open>FINISH\<close>, push, error-level
  or \<^verbatim>\<open>Close\<close> event; and the conditions under which the hook is not called or returns
  before it reaches the lock.
\<close>

fun isLockAttempt :: "event \<Rightarrow> bool" where
  "isLockAttempt (FsLock d k) = True"
| "isLockAttempt e = False"

fun isBegin :: "event \<Rightarrow> bool" where
  "isBegin (Log l m as) = prefix ''=== BEGIN'' m"
| "isBegin e = False"

fun isFinish :: "event \<Rightarrow> bool" where
  "isFinish (Log l m as) = prefix ''=== FINISH'' m"
| "isFinish e = False"

fun isPush :: "event \<Rightarrow> bool" where
  "isPush (Push p) = True"
| "isPush e = False"

fun isErrorLog :: "event \<Rightarrow> bool" where
  "isErrorLog (Log l m as) = (l = ErrorLevel)"
| "isErrorLog e = False"

fun isClose :: "event \<Rightarrow> bool" where
  "isClose (Close h) = True"
| "isClose e = False"

fun isHookCall :: "event \<Rightarrow> bool" where
  "isHookCall (FsLock d k) = True"
| "isHookCall CallGlobalInit = True"
| "isHookCall (Log l m as) = prefix ''=== BEGIN'' m"
| "isHookCall e = False"

definition lifecycle :: "event \<Rightarrow> bool" where
  "lifecycle e \<longleftrightarrow> isLockAttempt e \<or> isBegin e \<or> isFinish e \<or> isPush e"

definition unlocked :: "RunState \<Rightarrow> bool" where
  "unlocked s \<longleftrightarrow> currentCmdLock s = None \<and> (\<forall>e\<in>set (trace s). \<not> lifecycle e)"

definition silent :: "event list \<Rightarrow> bool" where
  "silent es \<longleftrightarrow> (\<forall>e\<in>set es. \<not> isFinish e \<and> \<not> isPush e \<and> \<not> isErrorLog e \<and> \<not> isClose e)"

definition skipsLock :: "UFcli \<Rightarrow> World \<Rightarrow> bool" where
  "skipsLock uf w \<longleftrightarrow>
     (\<exists>out. Engine w = WithoutBefore out) \<or> InputSource w \<noteq> None
     \<or> fst (scanArgs (cmdNames (AppConfig_Commands uf) []) (drop 1 (Args w)) [])
     \<or> (cmdNames (AppConfig_Commands uf) [] \<noteq> []
         \<and> snd (scanArgs (cmdNames (AppConfig_Commands uf) []) (drop 1 (Args w)) []) = [])"

text \<open>
  The result of the engine call and the state in which the deferred function starts, and
  what the trace of that state says about the hook: if \<^verbatim>\<open>GlobalInit\<close> was called, how the
  engine ended and which closer is stored; if a lock was attempted, with which name, and
  whether the handle is held.
\<close>

definition engineResult :: "UFcli \<Rightarrow> World \<Rightarrow> err option result" where
  "engineResult uf w = fst (RunContext uf w (deliver uf w SignalBeforeRun initial))"

definition atDefer :: "UFcli \<Rightarrow> World \<Rightarrow> RunState" where
  "atDefer uf w =
     deliver uf w SignalAfterRun (snd (RunContext uf w (deliver uf w SignalBeforeRun initial)))"

definition initCase :: "UFcli \<Rightarrow> err option result \<Rightarrow> RunState \<Rightarrow> bool" where
  "initCase uf res s =
     (case GlobalInit uf of
        None \<Rightarrow> False
      | Some (InitPanics r) \<Rightarrow> res = Panic r
      | Some (InitReturns c e) \<Rightarrow> (e \<noteq> None \<longrightarrow> res = Return (WrErr e)) \<and> resourcesCloser s = c)"

definition lockCase :: "UFcli \<Rightarrow> World \<Rightarrow> err option result \<Rightarrow> RunState \<Rightarrow> string \<Rightarrow> string \<Rightarrow> bool" where
  "lockCase uf w res s d k \<longleftrightarrow>
     d = TempDir w \<and> k = lockName uf w s \<and> currentCmd s \<noteq> []
     \<and> (case Lock w of
           Some e \<Rightarrow> res = Return (Some e) \<and> currentCmdLock s = None
         | None \<Rightarrow> currentCmdLock s = Some (d, k) \<and> beginRecord (currentCmd s) \<in> set (trace s))"

definition hooked :: "UFcli \<Rightarrow> World \<Rightarrow> err option result \<Rightarrow> RunState \<Rightarrow> bool" where
  "hooked uf w res s \<longleftrightarrow>
     (CallGlobalInit \<in> set (trace s) \<longrightarrow> initCase uf res s)
     \<and> (\<forall>d k. FsLock d k \<in> set (trace s) \<longrightarrow> lockCase uf w res s d k)
     \<and> ((\<forall>d k. FsLock d k \<notin> set (trace s)) \<longrightarrow> currentCmdLock s = None)"

section \<open>Example inputs\<close>

text \<open>
  An application with one command, a run of it that succeeds after 1500.999999
  milliseconds, the error of a lock held elsewhere, a state with an error already captured,
  and a state that holds a lock.
\<close>

definition demoApp :: UFcli where
  "demoApp =
     \<lparr>AppConfig_Name = ''my-app v2!!'',
      AppConfig_Commands = [\<lparr>Name = ''run'', Aliases = [''r'']\<rparr>],
      TOMLPath = ''conf.toml'',
      GlobalInit = Some (InitReturns (Some None) None),
      BeforeShutdown = Some None\<rparr>"

definition demoWorld :: World where
  "demoWorld =
     \<lparr>Args = [''prog'', ''run''], TempDir = ''/tmp'', IsTerminal = False, InputSource = None,
      prometheus_push_url = ''http://push'', prometheus_push_user = [],
      prometheus_push_pass = [], prometheus_instance = [],
      Lock = None, Engine = WithBefore (Returns None), Since = 1500999999,
      Stack = ''goroutine 1'', PushResult = None, Signal = NoSignal\<rparr>"

text \<open>
  The example application with no configured name, started under a path: the engine names
  it \<^verbatim>\<open>prog\<close>.
\<close>

definition unnamedApp :: UFcli where
  "unnamedApp = demoApp\<lparr>AppConfig_Name := []\<rparr>"

definition installedWorld :: World where
  "installedWorld = demoWorld\<lparr>Args := [''/usr/local/bin/prog'', ''run'']\<rparr>"

definition heldLock :: err where
  "heldLock = PathError ''lock'' ''/tmp/my_app_v2_-run'' (LockedError ''someone else has the lock'')"


definition finished :: RunState where
  "finished = initial\<lparr>currentCmd := ''run'', currentCmdLock := Some (''/tmp'', ''app-run''),
                promPushConf_url := ''http://push''\<rparr>"

section \<open>Properties of errors, of the sanitiser and of durations\<close>

lemma As_LockedError_Unwrap:
  "As_LockedError e \<longleftrightarrow>
     (\<exists>m. e = LockedError m) \<or> (case Unwrap e of None \<Rightarrow> False | Some e' \<Rightarrow> As_LockedError e')"
  by (cases e) simp_all

lemma promStr_alnum_append:
  "\<forall>c\<in>set xs. alphanumeric c \<Longrightarrow> promStr (xs @ ys) = xs @ promStr ys"
  by (induction xs) auto

lemma dropWhile_run:
  "\<forall>c\<in>set xs. \<not> alphanumeric c \<Longrightarrow> ys = [] \<or> alphanumeric (hd ys) \<Longrightarrow>
   dropWhile (\<lambda>d. \<not> alphanumeric d) (xs @ ys) = ys"
  by (induction xs) (auto simp: dropWhile_eq_self_iff)

lemma promStr_run_append:
  assumes "xs \<noteq> []" "\<forall>c\<in>set xs. \<not> alphanumeric c" "ys = [] \<or> alphanumeric (hd ys)"
  shows "promStr (xs @ ys) = CHR ''_'' # promStr ys"
proof -
  obtain x xs' where xs: "xs = x # xs'"
    using assms(1) by (cases xs) auto
  have "dropWhile (\<lambda>d. \<not> alphanumeric d) (xs' @ ys) = ys"
    using assms(2,3) xs by (intro dropWhile_run) auto
  with xs assms(2) show ?thesis by simp
qed

lemma promStr_chars: "c \<in> set (promStr s) \<Longrightarrow> alphanumeric c \<or> c = CHR ''_''"
  by (induction s rule: promStr.induct) (auto split: if_splits)

lemma underscore_not_alnum: "\<not> alphanumeric (CHR ''_'')"
  by (simp add: alphanumeric_def)

lemma promStr_starts:
  "s = [] \<or> alphanumeric (hd s) \<Longrightarrow> promStr s = [] \<or> hd (promStr s) \<noteq> CHR ''_''"
  using underscore_not_alnum by (cases s) auto

lemma dropWhile_starts:
  "dropWhile (\<lambda>d. \<not> alphanumeric d) cs = [] \<or>
   alphanumeric (hd (dropWhile (\<lambda>d. \<not> alphanumeric d) cs))"
  using hd_dropWhile[of "\<lambda>d. \<not> alphanumeric d" cs] by blast

lemma promStr_no_double: "\<not> sublist ''__'' (promStr s)"
proof (induction s rule: promStr.induct)
  case 1
  then show ?case by simp
next
  case (2 c cs)
  show ?case
  proof (cases "alphanumeric c")
    case True
    with 2 underscore_not_alnum show ?thesis
      by (auto simp: sublist_Cons_right)
  next
    case False
    define r where "r = dropWhile (\<lambda>d. \<not> alphanumeric d) cs"
    have "r = [] \<or> alphanumeric (hd r)"
      unfolding r_def by (rule dropWhile_starts)
    then have "promStr r = [] \<or> hd (promStr r) \<noteq> CHR ''_''"
      by (rule promStr_starts)
    then have "\<not> prefix ''__'' (CHR ''_'' # promStr r)"
      by (cases "promStr r") auto
    moreover have "\<not> sublist ''__'' (promStr r)"
      using 2(2) False by (simp add: r_def)
    moreover have "promStr (c # cs) = CHR ''_'' # promStr r"
      using False by (simp add: r_def)
    ultimately show ?thesis
      by (simp add: sublist_Cons_right)
  qed
qed

lemma promStr_before_underscore:
  "a = [] \<or> alphanumeric (last a) \<Longrightarrow> promStr (a @ CHR ''_'' # t) = promStr a @ promStr (CHR ''_'' # t)"
proof (induction a rule: promStr.induct)
  case 1
  then show ?case by simp
next
  case (2 c cs)
  show ?case
  proof (cases "alphanumeric c")
    case True
    with 2 show ?thesis by (cases "cs = []") auto
  next
    case False
    define r where "r = dropWhile (\<lambda>d. \<not> alphanumeric d) cs"
    from 2(3) False have ne: "cs \<noteq> []" and la: "alphanumeric (last cs)"
      by (auto split: if_splits)
    then have rne: "r \<noteq> []"
      by (auto simp: r_def dropWhile_eq_Nil_conv)
    have "last r = last cs"
      unfolding r_def using rne[unfolded r_def]
      by (metis takeWhile_dropWhile_id last_appendR)
    with la rne have "r = [] \<or> alphanumeric (last r)" by simp
    with 2(2) False have ih: "promStr (r @ CHR ''_'' # t) = promStr r @ promStr (CHR ''_'' # t)"
      by (simp add: r_def)
    have "dropWhile (\<lambda>d. \<not> alphanumeric d) (cs @ CHR ''_'' # t) = r @ CHR ''_'' # t"
    proof -
      from rne obtain x where "x \<in> set cs" "\<not> \<not> alphanumeric x"
        by (auto simp: r_def dropWhile_eq_Nil_conv)
      then show ?thesis
        unfolding r_def by (rule dropWhile_append1)
    qed
    with False ih show ?thesis by (simp add: r_def)
  qed
qed

lemma promStr_join:
  assumes "a = [] \<or> alphanumeric (last a)" "b = [] \<or> alphanumeric (hd b)"
  shows "promStr (a @ ''_'' @ b) = promStr a @ ''_'' @ promStr b"
proof -
  have "promStr (CHR ''_'' # b) = CHR ''_'' # promStr b"
    using assms(2) underscore_not_alnum promStr_run_append[of "''_''" b] by simp
  with promStr_before_underscore[OF assms(1), of b] show ?thesis by simp
qed

lemma Truncate_nonneg: "0 \<le> d \<Longrightarrow> 0 < m \<Longrightarrow> Truncate d m = d - d mod m"
  by (simp add: Truncate_def signed_modulo_int_def sgn_if)

lemma Milliseconds_nonneg: "0 \<le> d \<Longrightarrow> Milliseconds d = d div 1000000"
  by (simp add: Milliseconds_def signed_divide_int_def sgn_if)

lemma took_1500:
  assumes "Since w = 1500 * Millisecond + r" "0 \<le> r" "r < Millisecond"
  shows "took w = 1500 * Millisecond \<and> Milliseconds (took w) = 1500"
proof -
  have "(1500 * 1000000 + r) mod 1000000 = r mod 1000000"
    by (simp only: mod_mult_self3)
  then have m: "(1500 * 1000000 + r) mod 1000000 = r"
    using assms(2,3) by (simp add: Millisecond_def)
  have "took w = (1500 * 1000000 + r) - (1500 * 1000000 + r) mod 1000000"
    using assms by (simp add: took_def Truncate_nonneg Millisecond_def)
  then have t: "took w = 1500 * 1000000" using m by simp
  then show ?thesis by (simp add: Milliseconds_nonneg Millisecond_def)
qed

lemma Milliseconds_mult: "Milliseconds (k * 1000000) = k"
  by (simp add: Milliseconds_def signed_divide_int_def abs_mult sgn_mult flip: abs_sgn_eq) (simp add: sgn_if)

lemma took_exact: "took w = Milliseconds (took w) * Millisecond"
proof -
  have "took w = Since w sdiv 1000000 * 1000000"
    by (simp add: took_def Truncate_def Millisecond_def minus_smod_eq_sdiv_mult)
  then show ?thesis
    by (simp add: Milliseconds_mult Millisecond_def)
qed

section \<open>Properties of the closures and of a run\<close>

lemma shutdown_eq:
  "shutdown uf b s =
     (if o_done s then s
      else s\<lparr>o_done := True, trace := trace s @ shutdown_sequence uf (resourcesCloser s) b\<rparr>)"
  by (simp add: shutdown_def shutdown_sequence_def cleanup_def emit_def Let_def
           split: option.splits)

lemma shutdown_again: "o_done s \<Longrightarrow> shutdown uf b s = s"
  by (simp add: shutdown_eq)

lemma o_done_shutdown: "o_done (shutdown uf b s)"
  by (simp add: shutdown_eq)

lemma fold_shutdown_done: "o_done s \<Longrightarrow> fold (shutdown uf) bs s = s"
  by (induction bs) (simp_all add: shutdown_again)

lemma fold_shutdown: "fold (shutdown uf) (b # bs) s = shutdown uf b s"
  by (simp add: fold_shutdown_done o_done_shutdown)

lemma emitEndLogs_eq:
  "emitEndLogs uf w b s = s\<lparr>trace := trace s @ endLogs uf w b s\<rparr>"
  by (simp add: emitEndLogs_def endLogs_def finishRecord_def pushRecord_def emit_def Let_def
        logHdr_def tookGauge_def successGauge_def cmdFqName_def
      split: option.splits)

lemma Before_cases [case_names config helpflag nocmd lockfail noinit initpanic initret]:
  obtains
    e where "InputSource w = Some e"
      "Before uf w s = (Return (Some (CmnErr e)), s\<lparr>trace := trace s @ hookPrefix uf\<rparr>)"
  | "InputSource w = None" "fst (scanned uf w s)"
      "Before uf w s =
         (Return None, (withConf w s)\<lparr>currentCmd := snd (scanned uf w s),
                          trace := trace s @ hookPrefix uf\<rparr>)"
  | "InputSource w = None" "\<not> fst (scanned uf w s)" "resolved uf w s = []"
      "Before uf w s =
         (Return None, (withConf w s)\<lparr>currentCmd := [], trace := trace s @ hookPrefix uf\<rparr>)"
  | e where "InputSource w = None" "\<not> fst (scanned uf w s)" "resolved uf w s \<noteq> []"
      "Lock w = Some e"
      "Before uf w s =
         (Return (Some e),
          (withConf w s)\<lparr>currentCmd := resolved uf w s, currentCmdLock := None,
             trace := trace s @ hookPrefix uf @ [FsLock (TempDir w) (lockKey uf w s)]\<rparr>)"
  | "InputSource w = None" "\<not> fst (scanned uf w s)" "resolved uf w s \<noteq> []"
      "Lock w = None" "GlobalInit uf = None"
      "Before uf w s =
         (Return None,
          (locked uf w s)\<lparr>trace := trace s @ hookPrefix uf
             @ [FsLock (TempDir w) (lockKey uf w s), beginRecord (resolved uf w s)]\<rparr>)"
  | r where "InputSource w = None" "\<not> fst (scanned uf w s)" "resolved uf w s \<noteq> []"
      "Lock w = None" "GlobalInit uf = Some (InitPanics r)"
      "Before uf w s =
         (Panic r,
          (locked uf w s)\<lparr>trace := trace s @ hookPrefix uf
             @ [FsLock (TempDir w) (lockKey uf w s), beginRecord (resolved uf w s),
                CallGlobalInit]\<rparr>)"
  | closer e where "InputSource w = None" "\<not> fst (scanned uf w s)" "resolved uf w s \<noteq> []"
      "Lock w = None" "GlobalInit uf = Some (InitReturns closer e)"
      "Before uf w s =
         (Return (WrErr e),
          (locked uf w s)\<lparr>resourcesCloser := closer,
             trace := trace s @ hookPrefix uf
               @ [FsLock (TempDir w) (lockKey uf w s), beginRecord (resolved uf w s),
                  CallGlobalInit]\<rparr>)"
proof (cases "InputSource w")
  case (Some e)
  then have "Before uf w s = (Return (Some (CmnErr e)), s\<lparr>trace := trace s @ hookPrefix uf\<rparr>)"
    by (simp add: Before_def hookPrefix_def emit_def)
  with Some that(1) show ?thesis by blast
next
  case None
  show ?thesis
  proof (cases "fst (scanned uf w s)")
    case True
    then have "Before uf w s =
         (Return None, (withConf w s)\<lparr>currentCmd := snd (scanned uf w s),
                          trace := trace s @ hookPrefix uf\<rparr>)"
      using None
      by (cases "scanned uf w s")
         (simp add: Before_def hookPrefix_def emit_def withConf_def scanned_def)
    with None True that(2) show ?thesis by blast
  next
    case noHelp: False
    then have sc: "scanArgs (cmdNames (AppConfig_Commands uf) []) (drop 1 (Args w)) (currentCmd s)
        = (False, snd (scanned uf w s))"
      by (cases "scanned uf w s") (simp add: scanned_def)
    show ?thesis
    proof (cases "resolved uf w s = []")
      case True
      then have "Before uf w s =
         (Return None, (withConf w s)\<lparr>currentCmd := [], trace := trace s @ hookPrefix uf\<rparr>)"
        using None sc
        by (simp add: Before_def hookPrefix_def emit_def withConf_def resolved_def Let_def
              split: if_splits)
      with None noHelp True that(3) show ?thesis by blast
    next
      case cmd: False
      show ?thesis
      proof (cases "Lock w")
        case (Some e)
        then have "Before uf w s =
         (Return (Some e),
          (withConf w s)\<lparr>currentCmd := resolved uf w s, currentCmdLock := None,
             trace := trace s @ hookPrefix uf @ [FsLock (TempDir w) (lockKey uf w s)]\<rparr>)"
          using None sc cmd
          by (simp add: Before_def hookPrefix_def emit_def withConf_def resolved_def Let_def
                lockKey_def lockName_def)
        with None noHelp cmd Some that(4) show ?thesis by blast
      next
        case lk: None
        show ?thesis
        proof (cases "GlobalInit uf")
          case gi: None
          then have "Before uf w s =
             (Return None,
              (locked uf w s)\<lparr>trace := trace s @ hookPrefix uf
                 @ [FsLock (TempDir w) (lockKey uf w s), beginRecord (resolved uf w s)]\<rparr>)"
            using None sc cmd lk
            by (simp add: Before_def hookPrefix_def emit_def withConf_def resolved_def Let_def
                  lockKey_def lockName_def locked_def beginRecord_def)
          with None noHelp cmd lk gi that(5) show ?thesis by blast
        next
          case (Some g)
          show ?thesis
          proof (cases g)
            case (InitReturns closer e)
            then have "Before uf w s =
               (Return (WrErr e),
                (locked uf w s)\<lparr>resourcesCloser := closer,
                   trace := trace s @ hookPrefix uf
                     @ [FsLock (TempDir w) (lockKey uf w s), beginRecord (resolved uf w s),
                        CallGlobalInit]\<rparr>)"
              using None sc cmd lk Some
              by (simp add: Before_def hookPrefix_def emit_def withConf_def resolved_def Let_def
                    lockKey_def lockName_def locked_def beginRecord_def)
            with None noHelp cmd lk Some InitReturns that(7) show ?thesis by blast
          next
            case (InitPanics r)
            then have "Before uf w s =
               (Panic r,
                (locked uf w s)\<lparr>trace := trace s @ hookPrefix uf
                   @ [FsLock (TempDir w) (lockKey uf w s), beginRecord (resolved uf w s),
                      CallGlobalInit]\<rparr>)"
              using None sc cmd lk Some
              by (simp add: Before_def hookPrefix_def emit_def withConf_def resolved_def Let_def
                    lockKey_def lockName_def locked_def beginRecord_def)
            with None noHelp cmd lk Some InitPanics that(6) show ?thesis by blast
          qed
        qed
      qed
    qed
  qed
qed

lemma RunAndExit_unfold:
  "RunAndExit uf w =
     (let rs = RunContext uf w (deliver uf w SignalBeforeRun initial);
          s1 = deliver uf w SignalAfterRun (snd rs);
          cs = (case fst rs of
                  Return e \<Rightarrow> deferred uf w None (s1\<lparr>scopeErr := e\<rparr>)
                | Panic r \<Rightarrow> deferred uf w (Some r) s1)
      in (fst cs, emit (Exit (fst cs)) (deliver uf w SignalAtExit (snd cs))))"
  by (simp add: RunAndExit_def Let_def case_prod_beta)

lemma deliver_eq:
  "deliver uf w p s =
     (if Signal w = p
      then shutdown uf False
             (s\<lparr>trace := trace s @ [Log WarnLevel ''termination signal received, cleaning up...'' []]\<rparr>)
      else s)"
  by (simp add: deliver_def signalHandler_def emit_def)

lemma scopeErr_shutdown [simp]: "scopeErr (shutdown uf b s) = scopeErr s"
  by (simp add: shutdown_eq)

lemma scopeErr_deliver [simp]: "scopeErr (deliver uf w p s) = scopeErr s"
  by (simp add: deliver_eq)

lemma scopeErr_emitEndLogs [simp]: "scopeErr (emitEndLogs uf w b s) = scopeErr s"
  by (simp add: emitEndLogs_eq)

lemma scopeErr_emit [simp]: "scopeErr (emit e s) = scopeErr s"
  by (simp add: emit_def)



lemma RunContext_eq:
  "RunContext uf w s =
     (case Engine w of
        WithoutBefore out \<Rightarrow> (finish out, s)
      | WithBefore out \<Rightarrow>
          (if fst (Before uf w s) = Return None then finish out else fst (Before uf w s),
           snd (Before uf w s)))"
  by (cases "Before uf w s")
     (simp add: RunContext_def split: engine.splits result.splits option.splits)

lemma RunAndExit_rule:
  assumes init: "P initial"
    and sig0: "\<And>s. P s \<Longrightarrow> P (deliver uf w SignalBeforeRun s)"
    and skip: "\<And>s out. P s \<Longrightarrow> Engine w = WithoutBefore out \<Longrightarrow> Q (finish out) s"
    and hook: "\<And>s out. P s \<Longrightarrow> Engine w = WithBefore out \<Longrightarrow>
                 Q (if fst (Before uf w s) = Return None then finish out else fst (Before uf w s))
                   (snd (Before uf w s))"
    and sig1: "\<And>res s. Q res s \<Longrightarrow> Q res (deliver uf w SignalAfterRun s)"
    and ret: "\<And>e s. Q (Return e) s \<Longrightarrow> R (deferred uf w None (s\<lparr>scopeErr := e\<rparr>))"
    and pan: "\<And>r s. Q (Panic r) s \<Longrightarrow> R (deferred uf w (Some r) s)"
    and exit: "\<And>c s. R (c, s) \<Longrightarrow> R (c, emit (Exit c) (deliver uf w SignalAtExit s))"
  shows "R (RunAndExit uf w)"
proof -
  define s0 where "s0 = deliver uf w SignalBeforeRun initial"
  define rs where "rs = RunContext uf w s0"
  define s1 where "s1 = deliver uf w SignalAfterRun (snd rs)"
  define cs where "cs = (case fst rs of
                  Return e \<Rightarrow> deferred uf w None (s1\<lparr>scopeErr := e\<rparr>)
                | Panic r \<Rightarrow> deferred uf w (Some r) s1)"
  have run: "RunAndExit uf w = (fst cs, emit (Exit (fst cs)) (deliver uf w SignalAtExit (snd cs)))"
    unfolding cs_def s1_def rs_def s0_def by (simp add: RunAndExit_unfold Let_def)
  have "P s0" unfolding s0_def using init by (rule sig0)
  then have "Q (fst rs) (snd rs)"
    unfolding rs_def RunContext_eq using skip hook
    by (cases "Engine w") simp_all
  then have "Q (fst rs) s1" unfolding s1_def by (rule sig1)
  then have "R cs"
    unfolding cs_def using ret pan by (cases "fst rs") simp_all
  then have "R (fst cs, snd cs)" by simp
  then show ?thesis unfolding run by (rule exit)
qed

lemma emit_simps [simp]:
  "trace (emit e s) = trace s @ [e]"
  "o_done (emit e s) = o_done s"
  "resourcesCloser (emit e s) = resourcesCloser s"
  "currentCmd (emit e s) = currentCmd s"
  "currentCmdLock (emit e s) = currentCmdLock s"
  by (simp_all add: emit_def)

lemma shutdown_simps [simp]:
  "trace (shutdown uf b s) =
     trace s @ (if o_done s then [] else shutdown_sequence uf (resourcesCloser s) b)"
  "o_done (shutdown uf b s)"
  "resourcesCloser (shutdown uf b s) = resourcesCloser s"
  "currentCmd (shutdown uf b s) = currentCmd s"
  "currentCmdLock (shutdown uf b s) = currentCmdLock s"
  by (simp_all add: shutdown_eq)

lemma deliver_simps [simp]:
  "trace (deliver uf w p s) = trace s @ signalled uf w p s"
  "o_done (deliver uf w p s) = (o_done s \<or> Signal w = p)"
  "resourcesCloser (deliver uf w p s) = resourcesCloser s"
  "currentCmd (deliver uf w p s) = currentCmd s"
  "currentCmdLock (deliver uf w p s) = currentCmdLock s"
  by (simp_all add: deliver_eq signalled_def)

lemma emitEndLogs_simps [simp]:
  "trace (emitEndLogs uf w b s) = trace s @ endLogs uf w b s"
  "o_done (emitEndLogs uf w b s) = o_done s"
  "resourcesCloser (emitEndLogs uf w b s) = resourcesCloser s"
  "currentCmd (emitEndLogs uf w b s) = currentCmd s"
  "currentCmdLock (emitEndLogs uf w b s) = currentCmdLock s"
  by (simp_all add: emitEndLogs_eq)

lemma deferred_frame [simp]:
  "o_done (snd (deferred uf w r s))"
  "resourcesCloser (snd (deferred uf w r s)) = resourcesCloser s"
  "currentCmd (snd (deferred uf w r s)) = currentCmd s"
  "currentCmdLock (snd (deferred uf w r s)) = currentCmdLock s"
  by (simp_all add: deferred_def Let_def split: option.splits)

lemma shutdown_sequence_quiet:
  "e \<in> set (shutdown_sequence uf c b) \<Longrightarrow>
     \<not> isLockAttempt e \<and> \<not> isBegin e \<and> \<not> isFinish e \<and> \<not> isPush e \<and> \<not> isErrorLog e
     \<and> \<not> isClose e"
  by (auto simp: shutdown_sequence_def cleanup_def split: option.splits if_splits)

lemma signalled_quiet:
  "e \<in> set (signalled uf w p s) \<Longrightarrow>
     \<not> isLockAttempt e \<and> \<not> isBegin e \<and> \<not> isFinish e \<and> \<not> isPush e \<and> \<not> isErrorLog e
     \<and> \<not> isClose e"
  using shutdown_sequence_quiet[of e uf "resourcesCloser s" False]
  by (auto simp: signalled_def split: if_splits)

lemma endLogs_None [simp]: "currentCmdLock s = None \<Longrightarrow> endLogs uf w b s = []"
  by (simp add: endLogs_def)

lemma endLogs_quiet:
  "e \<in> set (endLogs uf w b s) \<Longrightarrow>
     \<not> isLockAttempt e \<and> \<not> isBegin e \<and> \<not> isErrorLog e \<and> \<not> isClose e"
  by (auto simp: endLogs_def finishRecord_def pushRecord_def logHdr_def
        split: if_splits option.splits)

lemma unlocked_deliver: "unlocked s \<Longrightarrow> unlocked (deliver uf w p s)"
  by (auto simp: unlocked_def lifecycle_def dest: signalled_quiet)

lemma unlocked_deferred: "unlocked s \<Longrightarrow> unlocked (snd (deferred uf w r (s\<lparr>scopeErr := e\<rparr>)))"
  by (auto simp: unlocked_def lifecycle_def deferred_def Let_def
        dest: shutdown_sequence_quiet split: option.splits if_splits)

lemma unlocked_deferred': "unlocked s \<Longrightarrow> unlocked (snd (deferred uf w r s))"
  using unlocked_deferred[of s uf w r "scopeErr s"] by simp

lemma unlocked_Before:
  assumes "unlocked s" "currentCmd s = []" "skipsLock uf w" "Engine w = WithBefore out"
  shows "unlocked (snd (Before uf w s))"
proof (cases rule: Before_cases[of w uf s])
  case (config e)
  with assms(1) show ?thesis
    by (auto simp: unlocked_def lifecycle_def hookPrefix_def)
next
  case helpflag
  with assms(1) show ?thesis
    by (auto simp: unlocked_def lifecycle_def hookPrefix_def withConf_def)
next
  case nocmd
  with assms(1) show ?thesis
    by (auto simp: unlocked_def lifecycle_def hookPrefix_def withConf_def)
qed (use assms in \<open>auto simp: skipsLock_def scanned_def resolved_def split: if_splits\<close>)

lemma no_lock_run:
  assumes "skipsLock uf w"
  shows "unlocked (snd (RunAndExit uf w))"
proof (rule RunAndExit_rule[where P = "\<lambda>s. unlocked s \<and> currentCmd s = []"
      and Q = "\<lambda>res s. unlocked s" and R = "\<lambda>cs. unlocked (snd cs)"])
  show "unlocked initial \<and> currentCmd initial = []"
    by (simp add: unlocked_def initial_def)
qed (use assms in \<open>auto simp: unlocked_deliver unlocked_deferred unlocked_deferred' unlocked_Before
       intro: unlocked_deliver\<close>, auto simp: unlocked_def lifecycle_def dest: signalled_quiet)

lemma RunAndExit_eq:
  "RunAndExit uf w =
     (let cs = (case engineResult uf w of
                  Return e \<Rightarrow> deferred uf w None ((atDefer uf w)\<lparr>scopeErr := e\<rparr>)
                | Panic r \<Rightarrow> deferred uf w (Some r) (atDefer uf w))
      in (fst cs, emit (Exit (fst cs)) (deliver uf w SignalAtExit (snd cs))))"
  unfolding engineResult_def atDefer_def by (simp add: RunAndExit_unfold Let_def)

lemma phase1_rule:
  assumes init: "P initial"
    and sig0: "\<And>s. P s \<Longrightarrow> P (deliver uf w SignalBeforeRun s)"
    and skip: "\<And>s out. P s \<Longrightarrow> Engine w = WithoutBefore out \<Longrightarrow> Q (finish out) s"
    and hook: "\<And>s out. P s \<Longrightarrow> Engine w = WithBefore out \<Longrightarrow>
                 Q (if fst (Before uf w s) = Return None then finish out else fst (Before uf w s))
                   (snd (Before uf w s))"
    and sig1: "\<And>res s. Q res s \<Longrightarrow> Q res (deliver uf w SignalAfterRun s)"
  shows "Q (engineResult uf w) (atDefer uf w)"
proof -
  define s0 where "s0 = deliver uf w SignalBeforeRun initial"
  have "P s0" unfolding s0_def using init by (rule sig0)
  then have "Q (fst (RunContext uf w s0)) (snd (RunContext uf w s0))"
    unfolding RunContext_eq using skip hook
    by (cases "Engine w") simp_all
  then show ?thesis
    unfolding engineResult_def atDefer_def s0_def by (rule sig1)
qed

lemma Before_frame [simp]:
  "o_done (snd (Before uf w s)) = o_done s"
  "scopeErr (snd (Before uf w s)) = scopeErr s"
  by (cases rule: Before_cases[of w uf s]; simp add: withConf_def locked_def)+

lemma Before_trace:
  "\<exists>evs. trace (snd (Before uf w s)) = trace s @ evs \<and> (\<forall>e\<in>set evs. hookEvent uf w s e)"
  by (cases rule: Before_cases[of w uf s]; simp add: withConf_def locked_def hookEvent_def)

lemma hookEvent_quiet:
  "hookEvent uf w s e \<Longrightarrow> \<not> isFinish e \<and> \<not> isPush e \<and> \<not> isErrorLog e \<and> \<not> isClose e"
  by (auto simp: hookEvent_def hookPrefix_def beginRecord_def)

lemma silent_append [simp]: "silent (xs @ ys) \<longleftrightarrow> silent xs \<and> silent ys"
  by (auto simp: silent_def)

lemma silent_signalled [simp]: "silent (signalled uf w p s)"
  by (auto simp: silent_def dest: signalled_quiet)

lemma silent_shutdown_sequence [simp]: "silent (shutdown_sequence uf c b)"
  by (auto simp: silent_def dest: shutdown_sequence_quiet)

lemma silent_Before: "silent (trace s) \<Longrightarrow> silent (trace (snd (Before uf w s)))"
  using Before_trace[of uf w s] hookEvent_quiet[of uf w s]
  by (auto simp: silent_def)

lemma atDefer_silent: "scopeErr (atDefer uf w) = None \<and> silent (trace (atDefer uf w))"
  by (rule phase1_rule[where P = "\<lambda>s. scopeErr s = None \<and> silent (trace s)"
        and Q = "\<lambda>res s. scopeErr s = None \<and> silent (trace s)"])
     (simp_all add: initial_def silent_Before, simp add: silent_def)

lemma shutdown_sequence_not_hook: "e \<in> set (shutdown_sequence uf c b) \<Longrightarrow> \<not> isHookCall e"
  by (auto simp: shutdown_sequence_def cleanup_def split: option.splits if_splits)

lemma signalled_not_hook: "e \<in> set (signalled uf w p s) \<Longrightarrow> \<not> isHookCall e"
  using shutdown_sequence_not_hook[of e uf "resourcesCloser s" False]
  by (auto simp: signalled_def split: if_splits)

lemma endLogs_not_hook: "e \<in> set (endLogs uf w b s) \<Longrightarrow> \<not> isHookCall e"
  by (auto simp: endLogs_def finishRecord_def pushRecord_def logHdr_def
        split: if_splits option.splits)

lemma deferred_not_hook:
  "e \<in> set (trace (snd (deferred uf w r s))) \<Longrightarrow> isHookCall e \<Longrightarrow> e \<in> set (trace s)"
  by (auto simp: deferred_def Let_def
        dest: shutdown_sequence_not_hook endLogs_not_hook split: option.splits if_splits)

lemma deferred_mono: "set (trace s) \<subseteq> set (trace (snd (deferred uf w r s)))"
  by (auto simp: deferred_def Let_def split: option.splits if_splits)

lemma trace_scopeErr_update [simp]: "trace (s\<lparr>scopeErr := e\<rparr>) = trace s"
  by simp

lemma RunAndExit_hook_calls:
  assumes "isHookCall e"
  shows "e \<in> set (trace (snd (RunAndExit uf w))) \<longleftrightarrow> e \<in> set (trace (atDefer uf w))"
proof (cases "engineResult uf w")
  case (Return x)
  then show ?thesis
    using assms deferred_not_hook[of e uf w None "(atDefer uf w)\<lparr>scopeErr := x\<rparr>"]
      deferred_mono[of "(atDefer uf w)\<lparr>scopeErr := x\<rparr>" uf w None]
    by (auto simp: RunAndExit_eq Let_def dest: signalled_not_hook)
next
  case (Panic r)
  then show ?thesis
    using assms deferred_not_hook[of e uf w "Some r" "atDefer uf w"]
      deferred_mono[of "atDefer uf w" uf w "Some r"]
    by (auto simp: RunAndExit_eq Let_def dest: signalled_not_hook)
qed


lemma RunAndExit_lock [simp]:
  "currentCmdLock (snd (RunAndExit uf w)) = currentCmdLock (atDefer uf w)"
  by (cases "engineResult uf w") (simp_all add: RunAndExit_eq Let_def)

lemma signalled_hook_simps [simp]:
  "CallGlobalInit \<notin> set (signalled uf w p s)"
  "FsLock d k \<notin> set (signalled uf w p s)"
  "beginRecord c \<notin> set (signalled uf w p s)"
  using signalled_not_hook[of CallGlobalInit uf w p s] signalled_not_hook[of "FsLock d k" uf w p s]
    signalled_not_hook[of "beginRecord c" uf w p s]
  by (auto simp: beginRecord_def)

lemma lockName_deliver [simp]: "lockName uf w' (deliver uf w p s) = lockName uf w' s"
  by (simp add: lockName_def)

lemma Before_no_lock:
  "\<forall>d k. FsLock d k \<notin> set (trace (snd (Before uf w s))) \<Longrightarrow>
   currentCmdLock (snd (Before uf w s)) = currentCmdLock s"
  by (cases rule: Before_cases[of w uf s]) (auto simp: withConf_def locked_def)

lemma initCase_deliver [simp]: "initCase uf res (deliver uf w p s) = initCase uf res s"
  by (simp add: initCase_def split: option.splits init.splits)

lemma lockCase_deliver [simp]: "lockCase uf w res (deliver uf w p s) d k = lockCase uf w res s d k"
  by (simp add: lockCase_def split: option.splits)

lemma hooked_deliver: "hooked uf w res s \<Longrightarrow> hooked uf w res (deliver uf w p s)"
  by (simp add: hooked_def)

lemma Before_init:
  assumes "\<forall>e\<in>set (trace s). \<not> isHookCall e"
    and "CallGlobalInit \<in> set (trace (snd (Before uf w s)))"
  shows "initCase uf (if fst (Before uf w s) = Return None then finish out else fst (Before uf w s))
           (snd (Before uf w s))"
  using assms
  by (cases rule: Before_cases[of w uf s])
     (auto simp: initCase_def hookPrefix_def beginRecord_def withConf_def locked_def
        split: option.splits)

lemma Before_lock:
  assumes "\<forall>e\<in>set (trace s). \<not> isHookCall e"
    and "FsLock d k \<in> set (trace (snd (Before uf w s)))"
  shows "lockCase uf w (if fst (Before uf w s) = Return None then finish out else fst (Before uf w s))
           (snd (Before uf w s)) d k"
  using assms
  by (cases rule: Before_cases[of w uf s])
     (auto simp: lockCase_def lockName_def lockKey_def hookPrefix_def beginRecord_def
        withConf_def locked_def)

lemma hooked_Before:
  assumes "\<forall>e\<in>set (trace s). \<not> isHookCall e" "currentCmdLock s = None"
  shows "hooked uf w (if fst (Before uf w s) = Return None then finish out else fst (Before uf w s))
           (snd (Before uf w s))"
  unfolding hooked_def
  using Before_init[OF assms(1)] Before_lock[OF assms(1)] Before_no_lock[of uf w s] assms(2)
  by simp

lemma atDefer_hooked: "hooked uf w (engineResult uf w) (atDefer uf w)"
proof (rule phase1_rule[where P = "\<lambda>s. (\<forall>e\<in>set (trace s). \<not> isHookCall e) \<and> currentCmdLock s = None"])
  show "(\<forall>e\<in>set (trace initial). \<not> isHookCall e) \<and> currentCmdLock initial = None"
    by (simp add: initial_def)
next
  fix s :: RunState
  assume "(\<forall>e\<in>set (trace s). \<not> isHookCall e) \<and> currentCmdLock s = None"
  then show "(\<forall>e\<in>set (trace (deliver uf w SignalBeforeRun s)). \<not> isHookCall e)
      \<and> currentCmdLock (deliver uf w SignalBeforeRun s) = None"
    by (auto dest: signalled_not_hook)
next
  fix s :: RunState and out
  assume "(\<forall>e\<in>set (trace s). \<not> isHookCall e) \<and> currentCmdLock s = None"
  then show "hooked uf w (finish out) s"
    by (force simp: hooked_def)
next
  fix s :: RunState and out
  assume "(\<forall>e\<in>set (trace s). \<not> isHookCall e) \<and> currentCmdLock s = None"
  then show "hooked uf w (if fst (Before uf w s) = Return None then finish out else fst (Before uf w s))
           (snd (Before uf w s))"
    by (simp add: hooked_Before)
next
  fix res and s :: RunState
  assume "hooked uf w res s"
  then show "hooked uf w res (deliver uf w SignalAfterRun s)"
    by (rule hooked_deliver)
qed




lemmas run_defs =
  RunAndExit_def RunContext_def Before_def deferred_def emitEndLogs_def shutdown_def
  deliver_def signalHandler_def emit_def initial_def index_def lockName_def app_Name_def
  cmdFqName_def
  tookGauge_def successGauge_def logHdr_def took_def Truncate_def Milliseconds_def
  Millisecond_def alphanumeric_def Let_def

lemma demo_run:
  "RunAndExit demoApp demoWorld =
     (0, \<lparr>o_done = True, resourcesCloser = Some None, scopeErr = None, currentCmd = ''run'',
          currentCmdLock = Some (''/tmp'', ''my_app_v2_-run''),
          promPushConf_url = ''http://push'', promPushConf_user = [],
          promPushConf_pass = [], promPushConf_instance = [],
          trace =
            [SetLogLevel ''net/identify'' ''ERROR'', SetLogLevel ''canonical-log'' ''ERROR'',
             InitInputSource ''conf.toml'', FsLock ''/tmp'' ''my_app_v2_-run'',
             Log InfoLevel (''=== BEGIN '' @ apostrophe @ ''run'' @ apostrophe @ '' run'') [],
             CallGlobalInit,
             Log InfoLevel (''=== FINISH '' @ apostrophe @ ''run'' @ apostrophe @ '' run'')
               [StrArg ''success'', BoolArg True, StrArg ''took'', DurationString 1500000000],
             Push \<lparr>push_url = ''http://push'', push_job = ''run'', push_grouping = [],
                    push_basicAuth = None,
                    push_collectors =
                      [(''my_app_v2_run_run_time'', 1500), (''my_app_v2_run_success'', 1)]\<rparr>,
             CallBeforeShutdown, TopCtxShutdown, CallResourcesCloser, Exit 0]\<rparr>)"
  by (simp add: demoApp_def demoWorld_def run_defs signed_modulo_int_def signed_divide_int_def)

lemma scanArgs_help:
  "a \<in> set as \<Longrightarrow> a = ''-h'' \<or> a = ''--help'' \<Longrightarrow> fst (scanArgs m as cur)"
  by (induction as arbitrary: cur) auto

lemma help_skipsLock:
  "h \<in> set (drop 1 (Args w)) \<Longrightarrow> h = ''-h'' \<or> h = ''--help'' \<Longrightarrow> skipsLock uf w"
  by (simp add: skipsLock_def scanArgs_help)

lemma unlocked_trace:
  assumes "unlocked s"
  shows "currentCmdLock s = None"
    and "FsLock d k \<notin> set (trace s)"
    and "Log l m as \<in> set (trace s) \<Longrightarrow> \<not> prefix ''=== BEGIN'' m \<and> \<not> prefix ''=== FINISH'' m"
    and "Push p \<notin> set (trace s)"
  using assms by (auto simp: unlocked_def lifecycle_def)

lemma silent_trace:
  assumes "silent es"
  shows "Log l m as \<in> set es \<Longrightarrow> l \<noteq> ErrorLevel \<and> \<not> prefix ''=== FINISH'' m"
    and "Push p \<notin> set es"
    and "Close h \<notin> set es"
  using assms by (auto simp: silent_def)

lemma silent_Exit [simp]: "silent [Exit c]"
  by (simp add: silent_def)

lemma silent_endLogs_None: "currentCmdLock s = None \<Longrightarrow> silent (endLogs uf w b s)"
  by (simp add: silent_def)


lemma endLogs_push:
  "Push p \<in> set (endLogs uf w b s) \<Longrightarrow>
     push_collectors p = [tookGauge uf w s, successGauge uf b s]"
  by (auto simp: endLogs_def finishRecord_def pushRecord_def split: if_splits option.splits)

lemma silent_Nil [simp]: "silent []"
  by (simp add: silent_def)

lemma RunAndExit_no_close: "Close h \<notin> set (trace (snd (RunAndExit uf w)))"
proof -
  have "\<forall>e\<in>set (trace (snd (RunAndExit uf w))). \<not> isClose e"
    using atDefer_silent[of uf w]
    by (cases "engineResult uf w")
       (auto simp: RunAndExit_eq Let_def deferred_def silent_def
          dest: signalled_quiet shutdown_sequence_quiet endLogs_quiet
          split: option.splits if_splits)
  then show ?thesis by force
qed

lemma RunAndExit_lock_held:
  "currentCmdLock (snd (RunAndExit uf w)) = Some (d, k)
     \<longleftrightarrow> FsLock d k \<in> set (trace (snd (RunAndExit uf w))) \<and> Lock w = None"
proof -
  note h = atDefer_hooked[of uf w, unfolded hooked_def]
  have tr: "FsLock d k \<in> set (trace (snd (RunAndExit uf w))) \<longleftrightarrow> FsLock d k \<in> set (trace (atDefer uf w))"
    for d k by (simp add: RunAndExit_hook_calls)
  show ?thesis
  proof
    assume held: "currentCmdLock (snd (RunAndExit uf w)) = Some (d, k)"
    then have a: "currentCmdLock (atDefer uf w) = Some (d, k)" by simp
    with h obtain d' k' where f: "FsLock d' k' \<in> set (trace (atDefer uf w))"
      by force
    with h have "lockCase uf w (engineResult uf w) (atDefer uf w) d' k'" by blast
    with a have "Lock w = None \<and> d' = d \<and> k' = k"
      by (auto simp: lockCase_def split: option.splits)
    with f show "FsLock d k \<in> set (trace (snd (RunAndExit uf w))) \<and> Lock w = None"
      by (simp add: tr)
  next
    assume "FsLock d k \<in> set (trace (snd (RunAndExit uf w))) \<and> Lock w = None"
    then have "FsLock d k \<in> set (trace (atDefer uf w))" and l: "Lock w = None"
      by (simp_all add: tr)
    with h have "lockCase uf w (engineResult uf w) (atDefer uf w) d k" by blast
    with l show "currentCmdLock (snd (RunAndExit uf w)) = Some (d, k)"
      by (simp add: lockCase_def)
  qed
qed

lemma scanArgs_no_help:
  "\<forall>a\<in>set as. a \<noteq> ''-h'' \<and> a \<noteq> ''--help'' \<Longrightarrow> \<not> fst (scanArgs m as cur)"
  by (induction as arbitrary: cur) auto

lemma scanArgs_no_match:
  "\<forall>a\<in>set as. index m a = [] \<Longrightarrow> snd (scanArgs m as []) = []"
  by (induction as) auto

lemma Before_Action_lock:
  assumes "cmdNames (AppConfig_Commands uf) [] = []" "InputSource w = None"
    and "\<forall>a\<in>set (drop 1 (Args w)). a \<noteq> ''-h'' \<and> a \<noteq> ''--help''"
  shows "FsLock (TempDir w) (promStr (app_Name uf w) @ ''-Action'')
           \<in> set (trace (snd (Before uf w s)))
         \<and> currentCmd (snd (Before uf w s)) = ''Action''"
proof -
  have nh: "\<not> fst (scanned uf w s)"
    using assms(3) by (simp add: scanned_def scanArgs_no_help)
  have r: "resolved uf w s = ''Action''"
    using assms(1) by (simp add: resolved_def)
  have k: "lockKey uf w s = promStr (app_Name uf w) @ ''-Action''"
    by (simp add: lockKey_def r alphanumeric_def)
  show ?thesis
    using assms(2) nh r k
    by (cases rule: Before_cases[of w uf s]) (simp_all add: withConf_def locked_def)
qed

lemma atDefer_Action:
  assumes "cmdNames (AppConfig_Commands uf) [] = []" "InputSource w = None"
    and "\<forall>a\<in>set (drop 1 (Args w)). a \<noteq> ''-h'' \<and> a \<noteq> ''--help''"
    and "Engine w = WithBefore out"
  shows "FsLock (TempDir w) (promStr (app_Name uf w) @ ''-Action'')
           \<in> set (trace (atDefer uf w))
         \<and> currentCmd (atDefer uf w) = ''Action''"
  by (rule phase1_rule[where P = "\<lambda>s. True"
        and Q = "\<lambda>res s. FsLock (TempDir w) (promStr (app_Name uf w) @ ''-Action'')
           \<in> set (trace s) \<and> currentCmd s = ''Action''"])
     (use assms Before_Action_lock[OF assms(1-3)] in auto)

lemma finish_recorded:
  assumes "currentCmdLock (atDefer uf w) \<noteq> None"
    and "IsTerminal w \<or> (\<forall>e. scopeErr (snd (RunAndExit uf w)) = Some e \<longrightarrow> \<not> As_LockedError e)"
  shows "Log (if fst (RunAndExit uf w) = 0 then InfoLevel else WarnLevel)
           (''=== FINISH '' @ apostrophe @ currentCmd (atDefer uf w) @ apostrophe @ '' run'')
           [StrArg ''success'', BoolArg (fst (RunAndExit uf w) = 0), StrArg ''took'',
            DurationString (took w)]
         \<in> set (trace (snd (RunAndExit uf w)))"
proof (cases "engineResult uf w")
  case (Return x)
  show ?thesis
  proof (cases x)
    case None
    with Return assms(1) show ?thesis
      by (auto simp: RunAndExit_eq Let_def deferred_def endLogs_def finishRecord_def logHdr_def)
  next
    case (Some e)
    with Return have "scopeErr (snd (RunAndExit uf w)) = Some e"
      by (simp add: RunAndExit_eq Let_def deferred_def)
    with assms(2) have "\<not> (As_LockedError e \<and> \<not> IsTerminal w)" by auto
    with Return Some assms(1) show ?thesis
      by (auto simp: RunAndExit_eq Let_def deferred_def endLogs_def finishRecord_def logHdr_def)
  qed
next
  case (Panic r)
  with assms(1) atDefer_silent[of uf w] show ?thesis
    by (auto simp: RunAndExit_eq Let_def deferred_def endLogs_def finishRecord_def logHdr_def)
qed

lemma contended_run:
  "RunAndExit demoApp (demoWorld\<lparr>Lock := Some heldLock, IsTerminal := tty\<rparr>) =
     (1, \<lparr>o_done = True, resourcesCloser = None, scopeErr = Some heldLock, currentCmd = ''run'',
          currentCmdLock = None,
          promPushConf_url = ''http://push'', promPushConf_user = [],
          promPushConf_pass = [], promPushConf_instance = [],
          trace =
            [SetLogLevel ''net/identify'' ''ERROR'', SetLogLevel ''canonical-log'' ''ERROR'',
             InitInputSource ''conf.toml'', FsLock ''/tmp'' ''my_app_v2_-run'']
            @ (if tty then [Log ErrorLevel ''%+v'' [ErrArg heldLock]] else [])
            @ [CallBeforeShutdown, TopCtxShutdown]
            @ (if tty then [Sleep 250000000] else [])
            @ [Exit 1]\<rparr>)"
  by (simp add: demoApp_def demoWorld_def heldLock_def run_defs)

lemma RunAndExit_currentCmd:
  "currentCmd (snd (RunAndExit uf w)) = currentCmd (atDefer uf w)"
  by (cases "engineResult uf w") (simp_all add: RunAndExit_eq Let_def)

lemma RunAndExit_lock_key:
  assumes "FsLock d k \<in> set (trace (snd (RunAndExit uf w)))"
  shows "d = TempDir w
    \<and> k = promStr (app_Name uf w) @ ''-'' @ promStr (currentCmd (snd (RunAndExit uf w)))
    \<and> currentCmd (snd (RunAndExit uf w)) \<noteq> []"
proof -
  from assms have "FsLock d k \<in> set (trace (atDefer uf w))"
    by (simp add: RunAndExit_hook_calls)
  with atDefer_hooked[of uf w]
  have "lockCase uf w (engineResult uf w) (atDefer uf w) d k"
    by (simp add: hooked_def)
  then show ?thesis by (simp add: lockCase_def lockName_def RunAndExit_currentCmd)
qed

lemma deferred_push:
  assumes "Push p \<in> set (trace (snd (deferred uf w r s)))" "silent (trace s)"
  shows "map fst (push_collectors p) = [cmdFqName uf s @ ''_run_time'', cmdFqName uf s @ ''_success'']"
  using assms
  by (auto simp: deferred_def Let_def emitEndLogs_eq shutdown_eq silent_def tookGauge_def
        successGauge_def cmdFqName_def
      dest!: endLogs_push dest: shutdown_sequence_quiet split: option.splits if_splits)

lemma RunAndExit_push:
  assumes "Push p \<in> set (trace (snd (RunAndExit uf w)))"
  shows "map fst (push_collectors p)
    = [cmdFqName uf (snd (RunAndExit uf w)) @ ''_run_time'',
       cmdFqName uf (snd (RunAndExit uf w)) @ ''_success'']"
proof -
  have c: "cmdFqName uf (snd (RunAndExit uf w)) = cmdFqName uf (atDefer uf w)"
    by (simp add: cmdFqName_def RunAndExit_currentCmd)
  show ?thesis
    using assms atDefer_silent[of uf w] unfolding c
    by (cases "engineResult uf w")
       (auto simp: RunAndExit_eq Let_def cmdFqName_def dest: signalled_quiet
          dest!: deferred_push)
qed

lemma unnamed_run:
  "RunAndExit unnamedApp installedWorld =
     (0, \<lparr>o_done = True, resourcesCloser = Some None, scopeErr = None, currentCmd = ''run'',
          currentCmdLock = Some (''/tmp'', ''prog-run''),
          promPushConf_url = ''http://push'', promPushConf_user = [],
          promPushConf_pass = [], promPushConf_instance = [],
          trace =
            [SetLogLevel ''net/identify'' ''ERROR'', SetLogLevel ''canonical-log'' ''ERROR'',
             InitInputSource ''conf.toml'', FsLock ''/tmp'' ''prog-run'',
             Log InfoLevel (''=== BEGIN '' @ apostrophe @ ''run'' @ apostrophe @ '' run'') [],
             CallGlobalInit,
             Log InfoLevel (''=== FINISH '' @ apostrophe @ ''run'' @ apostrophe @ '' run'')
               [StrArg ''success'', BoolArg True, StrArg ''took'', DurationString 1500000000],
             Push \<lparr>push_url = ''http://push'', push_job = ''run'', push_grouping = [],
                    push_basicAuth = None,
                    push_collectors = [(''_run_run_time'', 1500), (''_run_success'', 1)]\<rparr>,
             CallBeforeShutdown, TopCtxShutdown, CallResourcesCloser, Exit 0]\<rparr>)"
  by (simp add: unnamedApp_def installedWorld_def demoApp_def demoWorld_def run_defs Base_def)

section \<open>The claims\<close>

text \<open>
  Claim C1. The body of \<^verbatim>\<open>shutdown\<close> is to run once, whichever path calls it first:
  the pre-shutdown callback, the cancellation of the root context, then the resource closer
  that \<^verbatim>\<open>GlobalInit\<close> returned. The code misses a case. The closer is read when the
  body runs, and the once-guard makes every later call a no-op; so when a signal is handled
  before \<^verbatim>\<open>GlobalInit\<close> has returned, the body runs with a nil closer, and the closer
  that \<^verbatim>\<open>GlobalInit\<close> returns afterwards is stored and never called. This is the run of
  the example application, whose \<^verbatim>\<open>GlobalInit\<close> returns a closer, with a signal handled
  before the engine is entered: \<^verbatim>\<open>GlobalInit\<close> is called, the closer is stored, the run
  exits with code 0 and the trace holds no call of the closer. In the same run without the
  signal the closer is called.
\<close>

theorem closer_lost_after_early_signal:
  "GlobalInit demoApp = Some (InitReturns (Some None) None)
   \<and> RunAndExit demoApp (demoWorld\<lparr>Signal := SignalBeforeRun\<rparr>) =
     (0, \<lparr>o_done = True, resourcesCloser = Some None, scopeErr = None, currentCmd = ''run'',
          currentCmdLock = Some (''/tmp'', ''my_app_v2_-run''),
          promPushConf_url = ''http://push'', promPushConf_user = [],
          promPushConf_pass = [], promPushConf_instance = [],
          trace =
            [Log WarnLevel ''termination signal received, cleaning up...'' [],
             CallBeforeShutdown, TopCtxShutdown, Sleep 250000000,
             SetLogLevel ''net/identify'' ''ERROR'', SetLogLevel ''canonical-log'' ''ERROR'',
             InitInputSource ''conf.toml'', FsLock ''/tmp'' ''my_app_v2_-run'',
             Log InfoLevel (''=== BEGIN '' @ apostrophe @ ''run'' @ apostrophe @ '' run'') [],
             CallGlobalInit,
             Log InfoLevel (''=== FINISH '' @ apostrophe @ ''run'' @ apostrophe @ '' run'')
               [StrArg ''success'', BoolArg True, StrArg ''took'', DurationString 1500000000],
             Push \<lparr>push_url = ''http://push'', push_job = ''run'', push_grouping = [],
                    push_basicAuth = None,
                    push_collectors = [(''my_app_v2_run_run_time'', 1500),
                                       (''my_app_v2_run_success'', 1)]\<rparr>,
             Exit 0]\<rparr>)
   \<and> CallGlobalInit
       \<in> set (trace (snd (RunAndExit demoApp (demoWorld\<lparr>Signal := SignalBeforeRun\<rparr>))))
   \<and> CallResourcesCloser
       \<notin> set (trace (snd (RunAndExit demoApp (demoWorld\<lparr>Signal := SignalBeforeRun\<rparr>))))
   \<and> CallResourcesCloser \<in> set (trace (snd (RunAndExit demoApp demoWorld)))"
proof -
  have r: "RunAndExit demoApp (demoWorld\<lparr>Signal := SignalBeforeRun\<rparr>) =
     (0, \<lparr>o_done = True, resourcesCloser = Some None, scopeErr = None, currentCmd = ''run'',
          currentCmdLock = Some (''/tmp'', ''my_app_v2_-run''),
          promPushConf_url = ''http://push'', promPushConf_user = [],
          promPushConf_pass = [], promPushConf_instance = [],
          trace =
            [Log WarnLevel ''termination signal received, cleaning up...'' [],
             CallBeforeShutdown, TopCtxShutdown, Sleep 250000000,
             SetLogLevel ''net/identify'' ''ERROR'', SetLogLevel ''canonical-log'' ''ERROR'',
             InitInputSource ''conf.toml'', FsLock ''/tmp'' ''my_app_v2_-run'',
             Log InfoLevel (''=== BEGIN '' @ apostrophe @ ''run'' @ apostrophe @ '' run'') [],
             CallGlobalInit,
             Log InfoLevel (''=== FINISH '' @ apostrophe @ ''run'' @ apostrophe @ '' run'')
               [StrArg ''success'', BoolArg True, StrArg ''took'', DurationString 1500000000],
             Push \<lparr>push_url = ''http://push'', push_job = ''run'', push_grouping = [],
                    push_basicAuth = None,
                    push_collectors = [(''my_app_v2_run_run_time'', 1500),
                                       (''my_app_v2_run_success'', 1)]\<rparr>,
             Exit 0]\<rparr>)"
    by (simp add: demoApp_def demoWorld_def run_defs)
  have g: "GlobalInit demoApp = Some (InitReturns (Some None) None)"
    by (simp add: demoApp_def)
  have n: "CallResourcesCloser \<in> set (trace (snd (RunAndExit demoApp demoWorld)))"
    by (simp add: demo_run)
  show ?thesis
    unfolding r using g n by simp
qed



text \<open>
  Claim C3, as amended. No run calls \<^verbatim>\<open>Close\<close> on the lock handle: \<^verbatim>\<open>shutdown\<close> leaves
  \<^verbatim>\<open>currentCmdLock\<close> as it is and adds no \<^verbatim>\<open>Close\<close> event, and the trace of a run holds
  none. The handle is held when the process exits exactly when the lock was attempted and
  acquired; where it was not acquired nothing is released either.
\<close>

theorem lock_never_closed:
  "(\<forall>h. Close h \<notin> set (trace (snd (RunAndExit uf w))))
   \<and> currentCmdLock (shutdown uf isNormal s) = currentCmdLock s
   \<and> (\<forall>h. Close h \<in> set (trace (shutdown uf isNormal s)) \<longrightarrow> Close h \<in> set (trace s))
   \<and> (currentCmdLock (snd (RunAndExit uf w)) = Some (d, k)
        \<longleftrightarrow> FsLock d k \<in> set (trace (snd (RunAndExit uf w))) \<and> Lock w = None)"
proof -
  have a: "\<forall>h. Close h \<notin> set (trace (snd (RunAndExit uf w)))"
    by (simp add: RunAndExit_no_close)
  have b: "currentCmdLock (shutdown uf isNormal s) = currentCmdLock s"
    by simp
  have "Close h \<in> set (trace s)" if "Close h \<in> set (trace (shutdown uf isNormal s))" for h
    using that shutdown_sequence_quiet[of "Close h" uf "resourcesCloser s" isNormal]
    by (auto split: if_splits)
  then have c: "\<forall>h. Close h \<in> set (trace (shutdown uf isNormal s)) \<longrightarrow> Close h \<in> set (trace s)"
    by blast
  from a b c RunAndExit_lock_held[of uf w d k] show ?thesis
    by blast
qed

text \<open>
  The run of the example application acquires its lock and still holds it at exit.
\<close>

theorem lock_never_closed_witness:
  "FsLock ''/tmp'' ''my_app_v2_-run'' \<in> set (trace (snd (RunAndExit demoApp demoWorld)))
   \<and> Lock demoWorld = None
   \<and> currentCmdLock (snd (RunAndExit demoApp demoWorld)) = Some (''/tmp'', ''my_app_v2_-run'')
   \<and> Close (''/tmp'', ''my_app_v2_-run'') \<notin> set (trace (shutdown demoApp True initial))"
proof -
  have a: "FsLock ''/tmp'' ''my_app_v2_-run'' \<in> set (trace (snd (RunAndExit demoApp demoWorld)))
      \<and> Lock demoWorld = None"
    by (simp add: demo_run) (simp add: demoWorld_def)
  have b: "Close (''/tmp'', ''my_app_v2_-run'') \<notin> set (trace initial)"
    by (simp add: initial_def)
  from lock_never_closed[where uf = demoApp and w = demoWorld and isNormal = True and s = initial and d = "''/tmp''" and k = "''my_app_v2_-run''"] a b
  show ?thesis by blast
qed

text \<open>
  The claim as stated fails: the example run acquires the lock, and its trace, which ends
  with the shutdown sequence and \<^verbatim>\<open>os.Exit\<close>, has no release of it.
\<close>

theorem lock_left_held:
  "currentCmdLock (snd (RunAndExit demoApp demoWorld)) = Some (''/tmp'', ''my_app_v2_-run'')
   \<and> Lock demoWorld = None
   \<and> Close (''/tmp'', ''my_app_v2_-run'') \<notin> set (trace (snd (RunAndExit demoApp demoWorld)))"
  by (simp add: demo_run) (simp add: demoWorld_def)



text \<open>
  Claim C5. With an error that holds a \<^verbatim>\<open>LockedError\<close> and standard error not a terminal,
  the deferred function only runs \<^verbatim>\<open>shutdown\<close> and exits with code 1: it logs no error
  and does not call \<^verbatim>\<open>emitEndLogs\<close>. In a run whose lock attempt fails with such an error
  the exit code is 1 and there is no \<^verbatim>\<open>FINISH\<close> record and no push; without a terminal no
  error-level record is logged, with a terminal the lock error is logged before the exit.
\<close>

theorem lock_contention_exit:
  "(As_LockedError e \<and> \<not> IsTerminal w \<longrightarrow>
      deferred uf w None (s\<lparr>scopeErr := Some e\<rparr>) = (1, shutdown uf True (s\<lparr>scopeErr := Some e\<rparr>)))
   \<and> (FsLock d k \<in> set (trace (snd (RunAndExit uf w))) \<and> Lock w = Some e \<and> As_LockedError e \<longrightarrow>
        fst (RunAndExit uf w) = 1
        \<and> last (trace (snd (RunAndExit uf w))) = Exit 1
        \<and> (\<forall>l m as. Log l m as \<in> set (trace (snd (RunAndExit uf w)))
              \<longrightarrow> \<not> prefix ''=== FINISH'' m)
        \<and> (\<forall>p. Push p \<notin> set (trace (snd (RunAndExit uf w))))
        \<and> (if IsTerminal w
            then Log ErrorLevel ''%+v'' [ErrArg e] \<in> set (butlast (trace (snd (RunAndExit uf w))))
            else \<forall>l m as. Log l m as \<in> set (trace (snd (RunAndExit uf w))) \<longrightarrow> l \<noteq> ErrorLevel))"
proof -
  have quiet: "deferred uf w None (s\<lparr>scopeErr := Some e\<rparr>) = (1, shutdown uf True (s\<lparr>scopeErr := Some e\<rparr>))"
    if "As_LockedError e \<and> \<not> IsTerminal w"
    using that by (simp add: deferred_def)
  have run: "fst (RunAndExit uf w) = 1
        \<and> last (trace (snd (RunAndExit uf w))) = Exit 1
        \<and> (\<forall>l m as. Log l m as \<in> set (trace (snd (RunAndExit uf w)))
              \<longrightarrow> \<not> prefix ''=== FINISH'' m)
        \<and> (\<forall>p. Push p \<notin> set (trace (snd (RunAndExit uf w))))
        \<and> (if IsTerminal w
            then Log ErrorLevel ''%+v'' [ErrArg e] \<in> set (butlast (trace (snd (RunAndExit uf w))))
            else \<forall>l m as. Log l m as \<in> set (trace (snd (RunAndExit uf w))) \<longrightarrow> l \<noteq> ErrorLevel)"
    if a: "FsLock d k \<in> set (trace (snd (RunAndExit uf w))) \<and> Lock w = Some e \<and> As_LockedError e"
  proof -
    from a have "FsLock d k \<in> set (trace (atDefer uf w))"
      by (simp add: RunAndExit_hook_calls)
    with atDefer_hooked[of uf w] have "lockCase uf w (engineResult uf w) (atDefer uf w) d k"
      by (simp add: hooked_def)
    with a have res: "engineResult uf w = Return (Some e)"
      and lock: "currentCmdLock (atDefer uf w) = None"
      by (simp_all add: lockCase_def)
    note sil = atDefer_silent[of uf w]
    define s1 where "s1 = (atDefer uf w)\<lparr>scopeErr := Some e\<rparr>"
    have s1: "currentCmdLock s1 = None" "trace s1 = trace (atDefer uf w)"
      using lock by (simp_all add: s1_def)
    show ?thesis
    proof (cases "IsTerminal w")
      case False
      with a have dd: "deferred uf w None s1 = (1, shutdown uf True s1)"
        by (simp add: deferred_def s1_def)
      have run: "RunAndExit uf w = (1, emit (Exit 1) (deliver uf w SignalAtExit (shutdown uf True s1)))"
        using res dd by (simp add: RunAndExit_eq Let_def s1_def)
      have "silent (trace (snd (RunAndExit uf w)))"
        using sil by (simp add: run s1)
      from silent_trace[OF this] False show ?thesis
        by (auto simp: run)
    next
      case True
      define s2 where "s2 = emit (Log ErrorLevel ''%+v'' [ErrArg e]) s1"
      from True have dd: "deferred uf w None s1 = (1, shutdown uf False (emitEndLogs uf w False s2))"
        by (simp add: deferred_def s1_def s2_def Let_def)
      have run: "RunAndExit uf w
          = (1, emit (Exit 1) (deliver uf w SignalAtExit (shutdown uf False (emitEndLogs uf w False s2))))"
        using res dd by (simp add: RunAndExit_eq Let_def s1_def)
      have e0: "endLogs uf w False s2 = []"
        using s1 by (simp add: s2_def)
      have tr: "trace (snd (RunAndExit uf w)) =
          (trace (atDefer uf w) @ [Log ErrorLevel ''%+v'' [ErrArg e]]
            @ (if o_done s2 then [] else shutdown_sequence uf (resourcesCloser s2) False)
            @ signalled uf w SignalAtExit (shutdown uf False (emitEndLogs uf w False s2)))
          @ [Exit 1]"
        by (simp add: run e0) (simp add: s2_def s1)
      have "\<forall>x\<in>set (trace (snd (RunAndExit uf w))). \<not> isFinish x \<and> \<not> isPush x"
        using sil unfolding tr
        by (auto simp: silent_def dest: shutdown_sequence_quiet signalled_quiet split: if_splits)
      then have "(\<forall>l m as. Log l m as \<in> set (trace (snd (RunAndExit uf w)))
              \<longrightarrow> \<not> prefix ''=== FINISH'' m)
        \<and> (\<forall>p. Push p \<notin> set (trace (snd (RunAndExit uf w))))"
        by force
      moreover have "Log ErrorLevel ''%+v'' [ErrArg e] \<in> set (butlast (trace (snd (RunAndExit uf w))))"
        unfolding tr by (simp only: butlast_snoc) simp
      ultimately show ?thesis using True by (simp add: run)
    qed
  qed
  from quiet run show ?thesis by blast
qed

text \<open>
  The example run with the lock held elsewhere, without and with a terminal.
\<close>

theorem lock_contention_exit_witness:
  "fst (RunAndExit demoApp (demoWorld\<lparr>Lock := Some heldLock, IsTerminal := False\<rparr>)) = 1
   \<and> Log ErrorLevel ''%+v'' [ErrArg heldLock]
       \<notin> set (trace (snd (RunAndExit demoApp (demoWorld\<lparr>Lock := Some heldLock, IsTerminal := False\<rparr>))))
   \<and> Log ErrorLevel ''%+v'' [ErrArg heldLock]
       \<in> set (butlast (trace (snd (RunAndExit demoApp
                                       (demoWorld\<lparr>Lock := Some heldLock, IsTerminal := True\<rparr>)))))"
proof -
  let ?q = "demoWorld\<lparr>Lock := Some heldLock, IsTerminal := False\<rparr>"
  let ?t = "demoWorld\<lparr>Lock := Some heldLock, IsTerminal := True\<rparr>"
  have q: "FsLock ''/tmp'' ''my_app_v2_-run'' \<in> set (trace (snd (RunAndExit demoApp ?q)))
      \<and> Lock ?q = Some heldLock \<and> As_LockedError heldLock"
    by (simp add: contended_run) (simp add: demoWorld_def heldLock_def)
  have t: "FsLock ''/tmp'' ''my_app_v2_-run'' \<in> set (trace (snd (RunAndExit demoApp ?t)))
      \<and> Lock ?t = Some heldLock \<and> As_LockedError heldLock"
    by (simp add: contended_run) (simp add: demoWorld_def heldLock_def)
  have nt: "\<not> IsTerminal ?q" and tt: "IsTerminal ?t"
    by (simp_all add: demoWorld_def)
  from lock_contention_exit[of heldLock ?q demoApp _ "''/tmp''" "''my_app_v2_-run''"] q nt
  have "fst (RunAndExit demoApp ?q) = 1"
    and "Log ErrorLevel ''%+v'' [ErrArg heldLock] \<notin> set (trace (snd (RunAndExit demoApp ?q)))"
    by (simp, metis)
  moreover from lock_contention_exit[of heldLock ?t demoApp _ "''/tmp''" "''my_app_v2_-run''"] t tt
  have "Log ErrorLevel ''%+v'' [ErrArg heldLock] \<in> set (butlast (trace (snd (RunAndExit demoApp ?t))))"
    by simp
  ultimately show ?thesis by simp
qed

text \<open>
  Claim C6, as amended. The result of \<^verbatim>\<open>promStr\<close> holds only alphanumeric characters and
  underscores, never two underscores in a row: a run of alphanumeric characters is copied
  and a maximal run of other characters becomes one underscore; \<^verbatim>\<open>"my-app v2!!"\<close> gives
  \<^verbatim>\<open>"my_app_v2_"\<close>. The metric token is such a result, and every push of a run names
  its two gauges after the metric token of the configured application name and the
  command of the run. Every lock that a run attempts is in the temporary directory under
  the sanitised name of the application, a hyphen, and the sanitised command name, which
  holds only alphanumeric characters, underscores and that hyphen; the name of the
  application is here the one the engine uses, the configured name or, when that is empty,
  the base name of \<^verbatim>\<open>os.Args[0]\<close>.
\<close>

theorem promStr_tokens:
  "(\<forall>c\<in>set (promStr t). alphanumeric c \<or> c = CHR ''_'')
   \<and> \<not> sublist ''__'' (promStr t)
   \<and> ((\<forall>c\<in>set xs. alphanumeric c) \<longrightarrow> promStr (xs @ ys) = xs @ promStr ys)
   \<and> (xs \<noteq> [] \<and> (\<forall>c\<in>set xs. \<not> alphanumeric c) \<and> (ys = [] \<or> alphanumeric (hd ys))
        \<longrightarrow> promStr (xs @ ys) = CHR ''_'' # promStr ys)
   \<and> promStr ''my-app v2!!'' = ''my_app_v2_''
   \<and> (\<forall>c\<in>set (cmdFqName uf s). alphanumeric c \<or> c = CHR ''_'')
   \<and> \<not> sublist ''__'' (cmdFqName uf s)
   \<and> (Push p \<in> set (trace (snd (RunAndExit uf w))) \<longrightarrow>
        map fst (push_collectors p)
          = [cmdFqName uf (snd (RunAndExit uf w)) @ ''_run_time'',
             cmdFqName uf (snd (RunAndExit uf w)) @ ''_success''])
   \<and> (FsLock d k \<in> set (trace (snd (RunAndExit uf w))) \<longrightarrow>
        d = TempDir w
        \<and> k = promStr (app_Name uf w) @ ''-'' @ promStr (currentCmd (snd (RunAndExit uf w)))
        \<and> (\<forall>c\<in>set k. alphanumeric c \<or> c = CHR ''_'' \<or> c = CHR ''-''))"
proof -
  have ex: "promStr ''my-app v2!!'' = ''my_app_v2_''"
    by (simp add: alphanumeric_def)
  have lk: "d = TempDir w
        \<and> k = promStr (app_Name uf w) @ ''-'' @ promStr (currentCmd (snd (RunAndExit uf w)))
        \<and> (\<forall>c\<in>set k. alphanumeric c \<or> c = CHR ''_'' \<or> c = CHR ''-'')"
    if "FsLock d k \<in> set (trace (snd (RunAndExit uf w)))"
    using RunAndExit_lock_key[OF that] by (auto dest: promStr_chars)
  from promStr_chars[of _ t] promStr_no_double[of t] promStr_alnum_append[of xs ys]
    promStr_run_append[of xs ys] ex promStr_chars[of _ "AppConfig_Name uf @ ''_'' @ currentCmd s"]
    promStr_no_double[of "AppConfig_Name uf @ ''_'' @ currentCmd s"] lk
    RunAndExit_push[of p uf w]
  show ?thesis
    unfolding cmdFqName_def by blast
qed

text \<open>
  Two decompositions into runs, an input with doubled separators, and the lock and the
  push of two runs: the application without a name started as \<^verbatim>\<open>/usr/local/bin/prog\<close>,
  and the example application.
\<close>

theorem promStr_tokens_witness:
  "promStr (''ab'' @ ''--c'') = ''ab'' @ promStr ''--c''
   \<and> promStr (''- !'' @ ''c'') = CHR ''_'' # promStr ''c''
   \<and> \<not> sublist ''__'' (promStr ''a--b__c'')
   \<and> alphanumeric (CHR ''b'') \<and> \<not> alphanumeric (CHR ''!'')
   \<and> FsLock ''/tmp'' ''prog-run'' \<in> set (trace (snd (RunAndExit unnamedApp installedWorld)))
   \<and> ''prog-run''
       = promStr (app_Name unnamedApp installedWorld) @ ''-''
           @ promStr (currentCmd (snd (RunAndExit unnamedApp installedWorld)))
   \<and> FsLock ''/tmp'' ''my_app_v2_-run'' \<in> set (trace (snd (RunAndExit demoApp demoWorld)))
   \<and> ''my_app_v2_-run''
       = promStr (app_Name demoApp demoWorld) @ ''-''
           @ promStr (currentCmd (snd (RunAndExit demoApp demoWorld)))
   \<and> cmdFqName demoApp (snd (RunAndExit demoApp demoWorld)) = ''my_app_v2_run''"
proof -
  have a: "\<forall>c\<in>set ''ab''. alphanumeric c"
    by (simp add: alphanumeric_def)
  have b: "''- !'' \<noteq> [] \<and> (\<forall>c\<in>set ''- !''. \<not> alphanumeric c) \<and> (''c'' = [] \<or> alphanumeric (hd ''c''))"
    by (simp add: alphanumeric_def)
  have u: "FsLock ''/tmp'' ''prog-run'' \<in> set (trace (snd (RunAndExit unnamedApp installedWorld)))"
    by (simp add: unnamed_run)
  have v: "FsLock ''/tmp'' ''my_app_v2_-run'' \<in> set (trace (snd (RunAndExit demoApp demoWorld)))"
    by (simp add: demo_run)
  let ?p = "\<lparr>push_url = ''http://push'', push_job = ''run'', push_grouping = [],
             push_basicAuth = None,
             push_collectors = [(''my_app_v2_run_run_time'', 1500::int),
                                (''my_app_v2_run_success'', 1)]\<rparr>"
  have q: "Push ?p \<in> set (trace (snd (RunAndExit demoApp demoWorld)))"
    by (simp add: demo_run)
  from promStr_tokens[where t = "''a--b__c''" and xs = "''ab''" and ys = "''--c''"] a
  have "promStr (''ab'' @ ''--c'') = ''ab'' @ promStr ''--c''"
    and "\<not> sublist ''__'' (promStr ''a--b__c'')"
    by blast+
  moreover from promStr_tokens[where t = "''a--b__c''" and xs = "''- !''" and ys = "''c''"] b
  have "promStr (''- !'' @ ''c'') = CHR ''_'' # promStr ''c''"
    by blast
  moreover have "alphanumeric (CHR ''b'') \<and> \<not> alphanumeric (CHR ''!'')"
    by (simp add: alphanumeric_def)
  moreover from promStr_tokens[where uf = unnamedApp and w = installedWorld and d = "''/tmp''"
      and k = "''prog-run''"] u
  have "''prog-run''
       = promStr (app_Name unnamedApp installedWorld) @ ''-''
           @ promStr (currentCmd (snd (RunAndExit unnamedApp installedWorld)))"
    by blast
  moreover from promStr_tokens[where uf = demoApp and w = demoWorld and d = "''/tmp''"
      and k = "''my_app_v2_-run''" and p = ?p] v q
  have "''my_app_v2_-run''
       = promStr (app_Name demoApp demoWorld) @ ''-''
           @ promStr (currentCmd (snd (RunAndExit demoApp demoWorld)))"
    and "cmdFqName demoApp (snd (RunAndExit demoApp demoWorld)) = ''my_app_v2_run''"
    by (blast, simp)
  ultimately show ?thesis using u v by blast
qed

text \<open>
  The claim as stated fails for the lock token: the one of the example run contains a
  hyphen, which is neither alphanumeric nor an underscore.
\<close>

theorem lock_token_hyphen:
  "currentCmdLock (snd (RunAndExit demoApp demoWorld))
     = Some (''/tmp'', lockName demoApp demoWorld (snd (RunAndExit demoApp demoWorld)))
   \<and> FsLock ''/tmp'' (lockName demoApp demoWorld (snd (RunAndExit demoApp demoWorld)))
       \<in> set (trace (snd (RunAndExit demoApp demoWorld)))
   \<and> lockName demoApp demoWorld (snd (RunAndExit demoApp demoWorld)) = ''my_app_v2_-run''
   \<and> CHR ''-'' \<in> set (lockName demoApp demoWorld (snd (RunAndExit demoApp demoWorld)))
   \<and> \<not> alphanumeric (CHR ''-'') \<and> CHR ''-'' \<noteq> CHR ''_''"
  by (simp add: demo_run lockName_def app_Name_def) (simp add: demoApp_def alphanumeric_def)

text \<open>
  Claim C7, as amended. When the lock is held, \<^verbatim>\<open>emitEndLogs\<close> writes one \<^verbatim>\<open>FINISH\<close>
  record, at info level on success and at warning level on failure, with the duration
  truncated to milliseconds, and with a push address configured it pushes two gauges named
  after \<^verbatim>\<open>promStr(appName + "_" + commandName)\<close> with the suffixes \<^verbatim>\<open>_run_time\<close> and
  \<^verbatim>\<open>_success\<close>, holding the milliseconds and 1 or 0. That name is the two sanitised
  names joined by an underscore when the application name does not end and the command
  name does not begin with a character that is not alphanumeric. A duration of 1500
  milliseconds and a fraction gives 1500.
\<close>

theorem emitEndLogs_metrics:
  "(currentCmdLock s \<noteq> None \<longrightarrow>
      trace (emitEndLogs uf w ok s) = trace s @
        Log (if ok then InfoLevel else WarnLevel)
          (''=== FINISH '' @ apostrophe @ currentCmd s @ apostrophe @ '' run'')
          [StrArg ''success'', BoolArg ok, StrArg ''took'', DurationString (took w)]
        # (if promPushConf_url s = [] then []
           else Push \<lparr>push_url = promPushConf_url s,
                       push_job = promStr (currentCmd s),
                       push_grouping =
                         (if promPushConf_instance s \<noteq> []
                          then [(''instance'', promStr (promPushConf_instance s))] else []),
                       push_basicAuth =
                         (if promPushConf_user s \<noteq> []
                          then Some (promPushConf_user s, promPushConf_pass s) else None),
                       push_collectors =
                         [(promStr (AppConfig_Name uf @ ''_'' @ currentCmd s) @ ''_run_time'',
                           Milliseconds (took w)),
                          (promStr (AppConfig_Name uf @ ''_'' @ currentCmd s) @ ''_success'',
                           if ok then 1 else 0)]\<rparr>
                # (case PushResult w of
                     None \<Rightarrow> []
                   | Some promErr \<Rightarrow>
                       [Log WarnLevel
                          (''push of prometheus metrics to '' @ apostrophe @ ''%s'' @ apostrophe
                             @ '' failed: %s'')
                          [StrArg (promPushConf_url s), ErrArg promErr]])))
   \<and> ((AppConfig_Name uf = [] \<or> alphanumeric (last (AppConfig_Name uf)))
        \<and> (currentCmd s = [] \<or> alphanumeric (hd (currentCmd s)))
        \<longrightarrow> promStr (AppConfig_Name uf @ ''_'' @ currentCmd s)
            = promStr (AppConfig_Name uf) @ ''_'' @ promStr (currentCmd s))
   \<and> took w = Milliseconds (took w) * Millisecond
   \<and> (0 \<le> r \<and> r < Millisecond \<and> Since w = 1500 * Millisecond + r
        \<longrightarrow> took w = 1500 * Millisecond \<and> Milliseconds (took w) = 1500)"
proof -
  have rec: "trace (emitEndLogs uf w ok s) = trace s @
        Log (if ok then InfoLevel else WarnLevel)
          (''=== FINISH '' @ apostrophe @ currentCmd s @ apostrophe @ '' run'')
          [StrArg ''success'', BoolArg ok, StrArg ''took'', DurationString (took w)]
        # (if promPushConf_url s = [] then []
           else Push \<lparr>push_url = promPushConf_url s,
                       push_job = promStr (currentCmd s),
                       push_grouping =
                         (if promPushConf_instance s \<noteq> []
                          then [(''instance'', promStr (promPushConf_instance s))] else []),
                       push_basicAuth =
                         (if promPushConf_user s \<noteq> []
                          then Some (promPushConf_user s, promPushConf_pass s) else None),
                       push_collectors =
                         [(promStr (AppConfig_Name uf @ ''_'' @ currentCmd s) @ ''_run_time'',
                           Milliseconds (took w)),
                          (promStr (AppConfig_Name uf @ ''_'' @ currentCmd s) @ ''_success'',
                           if ok then 1 else 0)]\<rparr>
                # (case PushResult w of
                     None \<Rightarrow> []
                   | Some promErr \<Rightarrow>
                       [Log WarnLevel
                          (''push of prometheus metrics to '' @ apostrophe @ ''%s'' @ apostrophe
                             @ '' failed: %s'')
                          [StrArg (promPushConf_url s), ErrArg promErr]]))"
    if "currentCmdLock s \<noteq> None"
    using that
    by (simp add: endLogs_def finishRecord_def pushRecord_def logHdr_def tookGauge_def
          successGauge_def cmdFqName_def split: option.splits)
  have j: "promStr (AppConfig_Name uf @ ''_'' @ currentCmd s)
            = promStr (AppConfig_Name uf) @ ''_'' @ promStr (currentCmd s)"
    if "(AppConfig_Name uf = [] \<or> alphanumeric (last (AppConfig_Name uf)))
        \<and> (currentCmd s = [] \<or> alphanumeric (hd (currentCmd s)))"
    using that by (intro promStr_join) simp_all
  have t: "took w = 1500 * Millisecond \<and> Milliseconds (took w) = 1500"
    if "0 \<le> r \<and> r < Millisecond \<and> Since w = 1500 * Millisecond + r"
    using that by (intro took_1500[of w r]) simp_all
  from rec j t took_exact[of w] show ?thesis
    by blast
qed

text \<open>
  A successful run of 1500.999999 milliseconds of the command of an application named app.
\<close>

theorem emitEndLogs_metrics_witness:
  "currentCmdLock finished \<noteq> None
   \<and> trace (emitEndLogs (demoApp\<lparr>AppConfig_Name := ''app''\<rparr>) demoWorld True finished) =
       [Log InfoLevel (''=== FINISH '' @ apostrophe @ ''run'' @ apostrophe @ '' run'')
          [StrArg ''success'', BoolArg True, StrArg ''took'', DurationString 1500000000],
        Push \<lparr>push_url = ''http://push'', push_job = ''run'', push_grouping = [],
               push_basicAuth = None,
               push_collectors = [(''app_run_run_time'', 1500), (''app_run_success'', 1)]\<rparr>]
   \<and> promStr (''app'' @ ''_'' @ ''run'') = promStr ''app'' @ ''_'' @ promStr ''run''
   \<and> Milliseconds (took demoWorld) = 1500"
proof -
  let ?u = "demoApp\<lparr>AppConfig_Name := ''app''\<rparr>"
  have l: "currentCmdLock finished \<noteq> None"
    by (simp add: finished_def)
  have n: "(AppConfig_Name ?u = [] \<or> alphanumeric (last (AppConfig_Name ?u)))
        \<and> (currentCmd finished = [] \<or> alphanumeric (hd (currentCmd finished)))"
    by (simp add: finished_def alphanumeric_def)
  have t: "0 \<le> (999999::int) \<and> 999999 < Millisecond \<and> Since demoWorld = 1500 * Millisecond + 999999"
    by (simp add: demoWorld_def Millisecond_def)
  from emitEndLogs_metrics[where s = finished and uf = "?u" and w = demoWorld and ok = True and r = 999999] t
  have ms: "took demoWorld = 1500 * Millisecond" "Milliseconds (took demoWorld) = 1500"
    by blast+
  from emitEndLogs_metrics[where s = finished and uf = "?u" and w = demoWorld and ok = True and r = 999999] n
  have j: "promStr (''app'' @ ''_'' @ ''run'') = promStr ''app'' @ ''_'' @ promStr ''run''"
    by (simp add: finished_def)
  have pr: "PushResult demoWorld = None" "AppConfig_Name ?u = ''app''"
    by (simp_all add: demoWorld_def)
  from emitEndLogs_metrics[where s = finished and uf = "?u" and w = demoWorld and ok = True and r = 999999] l
  have "trace (emitEndLogs ?u demoWorld True finished) = trace finished @
        Log (if True then InfoLevel else WarnLevel)
          (''=== FINISH '' @ apostrophe @ currentCmd finished @ apostrophe @ '' run'')
          [StrArg ''success'', BoolArg True, StrArg ''took'', DurationString (took demoWorld)]
        # (if promPushConf_url finished = [] then []
           else Push \<lparr>push_url = promPushConf_url finished,
                       push_job = promStr (currentCmd finished),
                       push_grouping =
                         (if promPushConf_instance finished \<noteq> []
                          then [(''instance'', promStr (promPushConf_instance finished))] else []),
                       push_basicAuth =
                         (if promPushConf_user finished \<noteq> []
                          then Some (promPushConf_user finished, promPushConf_pass finished) else None),
                       push_collectors =
                         [(promStr (AppConfig_Name ?u @ ''_'' @ currentCmd finished) @ ''_run_time'',
                           Milliseconds (took demoWorld)),
                          (promStr (AppConfig_Name ?u @ ''_'' @ currentCmd finished) @ ''_success'',
                           if True then 1 else 0)]\<rparr>
                # (case PushResult demoWorld of
                     None \<Rightarrow> []
                   | Some promErr \<Rightarrow>
                       [Log WarnLevel
                          (''push of prometheus metrics to '' @ apostrophe @ ''%s'' @ apostrophe
                             @ '' failed: %s'')
                          [StrArg (promPushConf_url finished), ErrArg promErr]]))"
    by blast
  then have "trace (emitEndLogs ?u demoWorld True finished) =
       [Log InfoLevel (''=== FINISH '' @ apostrophe @ ''run'' @ apostrophe @ '' run'')
          [StrArg ''success'', BoolArg True, StrArg ''took'', DurationString 1500000000],
        Push \<lparr>push_url = ''http://push'', push_job = ''run'', push_grouping = [],
               push_basicAuth = None,
               push_collectors = [(''app_run_run_time'', 1500), (''app_run_success'', 1)]\<rparr>]"
    unfolding ms pr
    by (simp add: Millisecond_def Milliseconds_def signed_divide_int_def finished_def
          initial_def alphanumeric_def del: emitEndLogs_simps)
  with l j ms show ?thesis by blast
qed

text \<open>
  The claim as stated fails: for the application name \<^verbatim>\<open>"my-app v2!!"\<close> the gauge is
  named \<^verbatim>\<open>my_app_v2_run_run_time\<close>, while the sanitised names joined by an underscore
  give \<^verbatim>\<open>my_app_v2__run_run_time\<close>.
\<close>

theorem metric_name_joined:
  "fst (tookGauge demoApp demoWorld (snd (RunAndExit demoApp demoWorld)))
     = ''my_app_v2_run_run_time''
   \<and> promStr (AppConfig_Name demoApp) @ ''_''
       @ promStr (currentCmd (snd (RunAndExit demoApp demoWorld))) @ ''_run_time''
     = ''my_app_v2__run_run_time''
   \<and> Push \<lparr>push_url = ''http://push'', push_job = ''run'', push_grouping = [],
            push_basicAuth = None,
            push_collectors =
              [(''my_app_v2_run_run_time'', 1500), (''my_app_v2_run_success'', 1)]\<rparr>
       \<in> set (trace (snd (RunAndExit demoApp demoWorld)))"
  by (simp add: demo_run tookGauge_def cmdFqName_def) (simp add: demoApp_def alphanumeric_def)

text \<open>
  Claim C8. With \<^verbatim>\<open>-h\<close> or \<^verbatim>\<open>--help\<close> as the first argument after the program name, no
  lock is attempted or held and no \<^verbatim>\<open>BEGIN\<close> record, \<^verbatim>\<open>FINISH\<close> record or push is
  written, whatever follows. \<^verbatim>\<open>emitEndLogs\<close> does nothing when no lock is held, and a run
  that ends without a lock has no \<^verbatim>\<open>FINISH\<close> record and no push.
\<close>

theorem help_first_no_lock:
  "(Args w = prog # h # rest \<and> (h = ''-h'' \<or> h = ''--help'') \<longrightarrow>
      currentCmdLock (snd (RunAndExit uf w)) = None
      \<and> (\<forall>d k. FsLock d k \<notin> set (trace (snd (RunAndExit uf w))))
      \<and> (\<forall>l m as. Log l m as \<in> set (trace (snd (RunAndExit uf w)))
            \<longrightarrow> \<not> prefix ''=== BEGIN'' m \<and> \<not> prefix ''=== FINISH'' m)
      \<and> (\<forall>p. Push p \<notin> set (trace (snd (RunAndExit uf w)))))
   \<and> (currentCmdLock s = None \<longrightarrow> emitEndLogs uf w ok s = s)
   \<and> (currentCmdLock (snd (RunAndExit uf w)) = None \<longrightarrow>
        (\<forall>l m as. Log l m as \<in> set (trace (snd (RunAndExit uf w)))
            \<longrightarrow> \<not> prefix ''=== FINISH'' m)
        \<and> (\<forall>p. Push p \<notin> set (trace (snd (RunAndExit uf w)))))"
proof -
  have first: "currentCmdLock (snd (RunAndExit uf w)) = None
      \<and> (\<forall>d k. FsLock d k \<notin> set (trace (snd (RunAndExit uf w))))
      \<and> (\<forall>l m as. Log l m as \<in> set (trace (snd (RunAndExit uf w)))
            \<longrightarrow> \<not> prefix ''=== BEGIN'' m \<and> \<not> prefix ''=== FINISH'' m)
      \<and> (\<forall>p. Push p \<notin> set (trace (snd (RunAndExit uf w))))"
    if "Args w = prog # h # rest \<and> (h = ''-h'' \<or> h = ''--help'')"
  proof -
    from that have "h \<in> set (drop 1 (Args w))" by simp
    with that have "unlocked (snd (RunAndExit uf w))"
      by (intro no_lock_run help_skipsLock) auto
    from unlocked_trace[OF this] show ?thesis by blast
  qed
  have noop: "emitEndLogs uf w ok s = s" if "currentCmdLock s = None"
    using that by (simp add: emitEndLogs_def)
  have general: "(\<forall>l m as. Log l m as \<in> set (trace (snd (RunAndExit uf w)))
            \<longrightarrow> \<not> prefix ''=== FINISH'' m)
        \<and> (\<forall>p. Push p \<notin> set (trace (snd (RunAndExit uf w))))"
    if "currentCmdLock (snd (RunAndExit uf w)) = None"
  proof -
    from that have lock: "currentCmdLock (atDefer uf w) = None" by simp
    have "\<forall>e\<in>set (trace (snd (RunAndExit uf w))). \<not> isFinish e \<and> \<not> isPush e"
      using atDefer_silent[of uf w] lock
      by (cases "engineResult uf w")
         (auto simp: RunAndExit_eq Let_def deferred_def silent_def
            dest: signalled_quiet shutdown_sequence_quiet split: option.splits if_splits)
    then show ?thesis by force
  qed
  from first noop general show ?thesis by blast
qed

text \<open>
  The example run with --help before the command.
\<close>

theorem help_first_no_lock_witness:
  "currentCmdLock (snd (RunAndExit demoApp (demoWorld\<lparr>Args := [''prog'', ''--help'', ''run'']\<rparr>))) = None
   \<and> FsLock ''/tmp'' ''my_app_v2_-run''
       \<notin> set (trace (snd (RunAndExit demoApp (demoWorld\<lparr>Args := [''prog'', ''--help'', ''run'']\<rparr>))))
   \<and> emitEndLogs demoApp (demoWorld\<lparr>Args := [''prog'', ''--help'', ''run'']\<rparr>) True initial = initial"
proof -
  let ?w = "demoWorld\<lparr>Args := [''prog'', ''--help'', ''run'']\<rparr>"
  have a: "Args ?w = ''prog'' # ''--help'' # [''run''] \<and> (''--help'' = ''-h'' \<or> ''--help'' = ''--help'')"
    by (simp add: demoWorld_def)
  have b: "currentCmdLock initial = None"
    by (simp add: initial_def)
  from help_first_no_lock[where w = "?w" and prog = "''prog''" and h = "''--help''" and rest = "[''run'']" and uf = demoApp and s = initial and ok = True] a b
  show ?thesis by blast
qed

text \<open>
  Claim C9, as amended. When the application has no command (none but \<^verbatim>\<open>help\<close>), the
  engine calls the hook, the configuration loads and no argument is a help flag, the lock
  is attempted under the name of the application and \<^verbatim>\<open>Action\<close>, the name of the
  application being the configured one or, when that is empty, the base name of
  \<^verbatim>\<open>os.Args[0]\<close>; when the lock is acquired a \<^verbatim>\<open>BEGIN\<close> record for \<^verbatim>\<open>Action\<close> is
  written, and a \<^verbatim>\<open>FINISH\<close> record with the duration follows unless the run ends on the
  silent exit for a lock error. When the application has commands and no argument matches
  a name or an alias, no lock is attempted and no \<^verbatim>\<open>BEGIN\<close> record, \<^verbatim>\<open>FINISH\<close> record
  or push is written.
\<close>

theorem sentinel_action:
  "(cmdNames (AppConfig_Commands uf) [] = [] \<and> Engine w = WithBefore out \<and> InputSource w = None
      \<and> (\<forall>a\<in>set (drop 1 (Args w)). a \<noteq> ''-h'' \<and> a \<noteq> ''--help'') \<longrightarrow>
      FsLock (TempDir w) (promStr (app_Name uf w) @ ''-Action'')
        \<in> set (trace (snd (RunAndExit uf w)))
      \<and> (Lock w = None \<longrightarrow>
           Log InfoLevel (''=== BEGIN '' @ apostrophe @ ''Action'' @ apostrophe @ '' run'') []
             \<in> set (trace (snd (RunAndExit uf w)))
           \<and> (IsTerminal w
                \<or> (\<forall>e. scopeErr (snd (RunAndExit uf w)) = Some e \<longrightarrow> \<not> As_LockedError e) \<longrightarrow>
              Log (if fst (RunAndExit uf w) = 0 then InfoLevel else WarnLevel)
                (''=== FINISH '' @ apostrophe @ ''Action'' @ apostrophe @ '' run'')
                [StrArg ''success'', BoolArg (fst (RunAndExit uf w) = 0), StrArg ''took'',
                 DurationString (took w)]
              \<in> set (trace (snd (RunAndExit uf w))))))
   \<and> (cmdNames (AppConfig_Commands uf) [] \<noteq> []
        \<and> (\<forall>a\<in>set (drop 1 (Args w)). index (cmdNames (AppConfig_Commands uf) []) a = []) \<longrightarrow>
        currentCmdLock (snd (RunAndExit uf w)) = None
        \<and> (\<forall>d k. FsLock d k \<notin> set (trace (snd (RunAndExit uf w))))
        \<and> (\<forall>l m as. Log l m as \<in> set (trace (snd (RunAndExit uf w)))
              \<longrightarrow> \<not> prefix ''=== BEGIN'' m \<and> \<not> prefix ''=== FINISH'' m)
        \<and> (\<forall>p. Push p \<notin> set (trace (snd (RunAndExit uf w)))))"
proof -
  let ?key = "promStr (app_Name uf w) @ ''-Action''"
  have action: "FsLock (TempDir w) ?key \<in> set (trace (snd (RunAndExit uf w)))
      \<and> (Lock w = None \<longrightarrow>
           Log InfoLevel (''=== BEGIN '' @ apostrophe @ ''Action'' @ apostrophe @ '' run'') []
             \<in> set (trace (snd (RunAndExit uf w)))
           \<and> (IsTerminal w
                \<or> (\<forall>e. scopeErr (snd (RunAndExit uf w)) = Some e \<longrightarrow> \<not> As_LockedError e) \<longrightarrow>
              Log (if fst (RunAndExit uf w) = 0 then InfoLevel else WarnLevel)
                (''=== FINISH '' @ apostrophe @ ''Action'' @ apostrophe @ '' run'')
                [StrArg ''success'', BoolArg (fst (RunAndExit uf w) = 0), StrArg ''took'',
                 DurationString (took w)]
              \<in> set (trace (snd (RunAndExit uf w)))))"
    if a: "cmdNames (AppConfig_Commands uf) [] = [] \<and> Engine w = WithBefore out \<and> InputSource w = None
      \<and> (\<forall>a\<in>set (drop 1 (Args w)). a \<noteq> ''-h'' \<and> a \<noteq> ''--help'')"
  proof -
    from a have at: "FsLock (TempDir w) ?key \<in> set (trace (atDefer uf w))"
      and cmd: "currentCmd (atDefer uf w) = ''Action''"
      using atDefer_Action[of uf w out] by simp_all
    from at have lk: "FsLock (TempDir w) ?key \<in> set (trace (snd (RunAndExit uf w)))"
      by (simp add: RunAndExit_hook_calls)
    from at atDefer_hooked[of uf w]
    have lc: "lockCase uf w (engineResult uf w) (atDefer uf w) (TempDir w) ?key"
      by (simp add: hooked_def)
    have "Log InfoLevel (''=== BEGIN '' @ apostrophe @ ''Action'' @ apostrophe @ '' run'') []
             \<in> set (trace (snd (RunAndExit uf w)))"
      and "IsTerminal w
                \<or> (\<forall>e. scopeErr (snd (RunAndExit uf w)) = Some e \<longrightarrow> \<not> As_LockedError e) \<longrightarrow>
              Log (if fst (RunAndExit uf w) = 0 then InfoLevel else WarnLevel)
                (''=== FINISH '' @ apostrophe @ ''Action'' @ apostrophe @ '' run'')
                [StrArg ''success'', BoolArg (fst (RunAndExit uf w) = 0), StrArg ''took'',
                 DurationString (took w)]
              \<in> set (trace (snd (RunAndExit uf w)))"
      if l: "Lock w = None"
    proof -
      from lc l cmd have held: "currentCmdLock (atDefer uf w) \<noteq> None"
        and b: "beginRecord ''Action'' \<in> set (trace (atDefer uf w))"
        by (simp_all add: lockCase_def)
      have "isHookCall (beginRecord ''Action'')" by (simp add: beginRecord_def)
      with b have "beginRecord ''Action'' \<in> set (trace (snd (RunAndExit uf w)))"
        by (simp add: RunAndExit_hook_calls)
      then show "Log InfoLevel (''=== BEGIN '' @ apostrophe @ ''Action'' @ apostrophe @ '' run'') []
             \<in> set (trace (snd (RunAndExit uf w)))"
        by (simp add: beginRecord_def)
      show "IsTerminal w
                \<or> (\<forall>e. scopeErr (snd (RunAndExit uf w)) = Some e \<longrightarrow> \<not> As_LockedError e) \<longrightarrow>
              Log (if fst (RunAndExit uf w) = 0 then InfoLevel else WarnLevel)
                (''=== FINISH '' @ apostrophe @ ''Action'' @ apostrophe @ '' run'')
                [StrArg ''success'', BoolArg (fst (RunAndExit uf w) = 0), StrArg ''took'',
                 DurationString (took w)]
              \<in> set (trace (snd (RunAndExit uf w)))"
        using finish_recorded[OF held] cmd by simp
    qed
    with lk show ?thesis by blast
  qed
  have nomatch: "currentCmdLock (snd (RunAndExit uf w)) = None
        \<and> (\<forall>d k. FsLock d k \<notin> set (trace (snd (RunAndExit uf w))))
        \<and> (\<forall>l m as. Log l m as \<in> set (trace (snd (RunAndExit uf w)))
              \<longrightarrow> \<not> prefix ''=== BEGIN'' m \<and> \<not> prefix ''=== FINISH'' m)
        \<and> (\<forall>p. Push p \<notin> set (trace (snd (RunAndExit uf w))))"
    if a: "cmdNames (AppConfig_Commands uf) [] \<noteq> []
        \<and> (\<forall>a\<in>set (drop 1 (Args w)). index (cmdNames (AppConfig_Commands uf) []) a = [])"
  proof -
    from a have "skipsLock uf w"
      by (simp add: skipsLock_def scanArgs_no_match)
    then have "unlocked (snd (RunAndExit uf w))" by (rule no_lock_run)
    from unlocked_trace[OF this] show ?thesis by blast
  qed
  from action nomatch show ?thesis by blast
qed

text \<open>
  An application without commands, the same without a configured name, started as
  \<^verbatim>\<open>/usr/local/bin/prog\<close>, and the example application with an unknown argument.
\<close>

theorem sentinel_action_witness:
  "FsLock ''/tmp'' ''my_app_v2_-Action''
     \<in> set (trace (snd (RunAndExit (demoApp\<lparr>AppConfig_Commands := []\<rparr>)
                                      (demoWorld\<lparr>Args := [''prog'', ''x'']\<rparr>))))
   \<and> Log InfoLevel (''=== BEGIN '' @ apostrophe @ ''Action'' @ apostrophe @ '' run'') []
     \<in> set (trace (snd (RunAndExit (demoApp\<lparr>AppConfig_Commands := []\<rparr>)
                                      (demoWorld\<lparr>Args := [''prog'', ''x'']\<rparr>))))
   \<and> FsLock ''/tmp'' ''prog-Action''
     \<in> set (trace (snd (RunAndExit (unnamedApp\<lparr>AppConfig_Commands := []\<rparr>) installedWorld)))
   \<and> currentCmdLock (snd (RunAndExit demoApp (demoWorld\<lparr>Args := [''prog'', ''bogus'']\<rparr>))) = None"
proof -
  let ?u = "demoApp\<lparr>AppConfig_Commands := []\<rparr>"
  let ?w = "demoWorld\<lparr>Args := [''prog'', ''x'']\<rparr>"
  let ?v = "demoWorld\<lparr>Args := [''prog'', ''bogus'']\<rparr>"
  let ?n = "unnamedApp\<lparr>AppConfig_Commands := []\<rparr>"
  have a: "cmdNames (AppConfig_Commands ?u) [] = [] \<and> Engine ?w = WithBefore (Returns None)
      \<and> InputSource ?w = None
      \<and> (\<forall>a\<in>set (drop 1 (Args ?w)). a \<noteq> ''-h'' \<and> a \<noteq> ''--help'')"
    by (simp add: demoApp_def demoWorld_def)
  have l: "Lock ?w = None"
    by (simp add: demoWorld_def)
  have b: "cmdNames (AppConfig_Commands demoApp) [] \<noteq> []
        \<and> (\<forall>a\<in>set (drop 1 (Args ?v)). index (cmdNames (AppConfig_Commands demoApp) []) a = [])"
    by (simp add: demoApp_def demoWorld_def index_def)
  have c: "cmdNames (AppConfig_Commands ?n) [] = []
      \<and> Engine installedWorld = WithBefore (Returns None)
      \<and> InputSource installedWorld = None
      \<and> (\<forall>a\<in>set (drop 1 (Args installedWorld)). a \<noteq> ''-h'' \<and> a \<noteq> ''--help'')"
    by (simp add: unnamedApp_def installedWorld_def demoApp_def demoWorld_def)
  have k: "promStr (app_Name ?u ?w) @ ''-Action'' = ''my_app_v2_-Action''" "TempDir ?w = ''/tmp''"
    by (simp_all add: demoApp_def demoWorld_def app_Name_def alphanumeric_def)
  have m: "promStr (app_Name ?n installedWorld) @ ''-Action'' = ''prog-Action''"
    "TempDir installedWorld = ''/tmp''"
    by (simp_all add: unnamedApp_def installedWorld_def demoApp_def demoWorld_def app_Name_def
          Base_def alphanumeric_def)
  from sentinel_action[where uf = "?u" and w = "?w" and out = "Returns None"] a l
  have "FsLock ''/tmp'' ''my_app_v2_-Action'' \<in> set (trace (snd (RunAndExit ?u ?w)))"
    and "Log InfoLevel (''=== BEGIN '' @ apostrophe @ ''Action'' @ apostrophe @ '' run'') []
     \<in> set (trace (snd (RunAndExit ?u ?w)))"
    unfolding k by blast+
  moreover from sentinel_action[where uf = "?n" and w = installedWorld and out = "Returns None"] c
  have "FsLock ''/tmp'' ''prog-Action'' \<in> set (trace (snd (RunAndExit ?n installedWorld)))"
    unfolding m by blast
  moreover from sentinel_action[where uf = demoApp and w = "?v" and out = "Returns None"] b
  have "currentCmdLock (snd (RunAndExit demoApp ?v)) = None"
    by blast
  ultimately show ?thesis by blast
qed

text \<open>
  The claim as stated fails where no argument matches: the whole run of the example
  application with the argument \<^verbatim>\<open>bogus\<close> has no lock attempt and no \<^verbatim>\<open>BEGIN\<close> or
  \<^verbatim>\<open>FINISH\<close> record.
\<close>

theorem no_match_no_lock:
  "RunAndExit demoApp (demoWorld\<lparr>Args := [''prog'', ''bogus'']\<rparr>) =
     (0, \<lparr>o_done = True, resourcesCloser = None, scopeErr = None, currentCmd = [],
          currentCmdLock = None,
          promPushConf_url = ''http://push'', promPushConf_user = [],
          promPushConf_pass = [], promPushConf_instance = [],
          trace =
            [SetLogLevel ''net/identify'' ''ERROR'', SetLogLevel ''canonical-log'' ''ERROR'',
             InitInputSource ''conf.toml'', CallBeforeShutdown, TopCtxShutdown, Exit 0]\<rparr>)"
  by (simp add: demoApp_def demoWorld_def run_defs)

text \<open>
  Claim C10. With \<^verbatim>\<open>-h\<close> or \<^verbatim>\<open>--help\<close> at any position after the program name, also
  after an argument that resolved to a command, the hook returns after loading the
  configuration and before the lock: it returns nil (or the configuration error), adds
  only its three first events and leaves \<^verbatim>\<open>currentCmdLock\<close> alone. The run attempts no
  lock and writes no \<^verbatim>\<open>BEGIN\<close> record, \<^verbatim>\<open>FINISH\<close> record or push.
\<close>

theorem help_anywhere_no_lock:
  assumes "h \<in> set (drop 1 (Args w))" and "h = ''-h'' \<or> h = ''--help''"
  shows "fst (Before uf w s)
           = (case InputSource w of None \<Rightarrow> Return None | Some e \<Rightarrow> Return (Some (CmnErr e)))
    \<and> trace (snd (Before uf w s))
           = trace s @ [SetLogLevel ''net/identify'' ''ERROR'',
                        SetLogLevel ''canonical-log'' ''ERROR'', InitInputSource (TOMLPath uf)]
    \<and> currentCmdLock (snd (Before uf w s)) = currentCmdLock s
    \<and> currentCmdLock (snd (RunAndExit uf w)) = None
    \<and> (\<forall>d k. FsLock d k \<notin> set (trace (snd (RunAndExit uf w))))
    \<and> (\<forall>l m as. Log l m as \<in> set (trace (snd (RunAndExit uf w)))
          \<longrightarrow> \<not> prefix ''=== BEGIN'' m \<and> \<not> prefix ''=== FINISH'' m)
    \<and> (\<forall>p. Push p \<notin> set (trace (snd (RunAndExit uf w))))"
proof -
  have sc: "fst (scanned uf w s)"
    using assms by (simp add: scanned_def scanArgs_help)
  have hook: "fst (Before uf w s)
           = (case InputSource w of None \<Rightarrow> Return None | Some e \<Rightarrow> Return (Some (CmnErr e)))
    \<and> trace (snd (Before uf w s))
           = trace s @ [SetLogLevel ''net/identify'' ''ERROR'',
                        SetLogLevel ''canonical-log'' ''ERROR'', InitInputSource (TOMLPath uf)]
    \<and> currentCmdLock (snd (Before uf w s)) = currentCmdLock s"
    using sc
    by (cases rule: Before_cases[of w uf s]) (simp_all add: hookPrefix_def withConf_def)
  have "unlocked (snd (RunAndExit uf w))"
    using assms by (intro no_lock_run help_skipsLock)
  from hook unlocked_trace[OF this] show ?thesis by blast
qed

text \<open>
  The example run with -h after the command.
\<close>

theorem help_anywhere_no_lock_witness:
  "''-h'' \<in> set (drop 1 [''prog'', ''run'', ''-h''])
   \<and> currentCmdLock (snd (RunAndExit demoApp (demoWorld\<lparr>Args := [''prog'', ''run'', ''-h'']\<rparr>))) = None
   \<and> FsLock ''/tmp'' ''my_app_v2_-run''
       \<notin> set (trace (snd (RunAndExit demoApp (demoWorld\<lparr>Args := [''prog'', ''run'', ''-h'']\<rparr>))))
   \<and> fst (Before demoApp (demoWorld\<lparr>Args := [''prog'', ''run'', ''-h'']\<rparr>) initial) = Return None"
proof -
  let ?w = "demoWorld\<lparr>Args := [''prog'', ''run'', ''-h'']\<rparr>"
  have a: "''-h'' \<in> set (drop 1 (Args ?w))" and i: "InputSource ?w = None"
    by (simp_all add: demoWorld_def)
  have b: "''-h'' = ''-h'' \<or> ''-h'' = ''--help''" by simp
  from help_anywhere_no_lock[OF a b, where uf = demoApp and s = initial] i
  show ?thesis by simp
qed

end
